theory Spec2Isabelle
  imports Complex_Main "HOL-Library.Word"
begin

unbundle bit_operations_syntax

section \<open>Numbers\<close>

text \<open>
  A JavaScript number is a double: NaN, one of the two infinities, or a finite value.
  The finite values are modelled by the reals they denote. The functions applied to them
  here (\<^verbatim>\<open>Number.isFinite\<close>, \<^verbatim>\<open>Math.trunc\<close>, \<^verbatim>\<open>Math.min\<close>, \<^verbatim>\<open>Math.max\<close>) are exact on
  doubles, so a statement about every real covers every finite double. Negative zero is
  not distinguished: \<^verbatim>\<open>Math.max(0, -0)\<close> is \<^verbatim>\<open>+0\<close>, so \<^verbatim>\<open>clampRowValue\<close> never returns it.
\<close>

datatype number = NaN | PosInfinity | NegInfinity | Finite real

definition ROWS :: nat where
  "ROWS = 8"

definition COLS :: nat where
  "COLS = 5"

definition isFinite :: "number \<Rightarrow> bool" where
  "isFinite v = (case v of Finite x \<Rightarrow> True | _ \<Rightarrow> False)"

text \<open>\<^verbatim>\<open>Math.trunc\<close>: the integral part of a finite number, rounding towards zero.\<close>

definition Math_trunc :: "real \<Rightarrow> int" where
  "Math_trunc x = (if 0 \<le> x then \<lfloor>x\<rfloor> else \<lceil>x\<rceil>)"

text \<open>
  \<^verbatim>\<open>function clampRowValue(v: number) {
    if (!Number.isFinite(v)) return 0
    return Math.max(0, Math.min(31, Math.trunc(v)))
  }\<close>
\<close>

definition clampRowValue :: "number \<Rightarrow> int" where
  "clampRowValue v =
     (if \<not> isFinite v then 0
      else case v of Finite x \<Rightarrow> max 0 (min 31 (Math_trunc x)) | _ \<Rightarrow> 0)"

text \<open>An integer seen as a number, where a row value is handed to \<^verbatim>\<open>clampRowValue\<close>.\<close>

definition num :: "int \<Rightarrow> number" where
  "num k = Finite (of_int k)"

section \<open>Bitwise operators\<close>

text \<open>
  The bitwise operators of JavaScript convert their operands to 32-bit two's complement
  integers (\<^verbatim>\<open>ToInt32\<close>), take the shift count modulo 32 and return a 32-bit integer.
  Row vectors hold integer-valued numbers in every state of the program (they come out of
  \<^verbatim>\<open>clampRowValue\<close>, \<^verbatim>\<open>gridToRows\<close>, \<^verbatim>\<open>decodeRowsBase32\<close> or \<^verbatim>\<open>emptyRows\<close>), so a row vector
  is an \<open>int list\<close>; the wrap-around of the operators is written out.
\<close>

definition ToInt32 :: "int \<Rightarrow> int" where
  "ToInt32 k = signed_take_bit 31 k"

definition js_shr :: "int \<Rightarrow> nat \<Rightarrow> int" where
  "js_shr a n = drop_bit (n mod 32) (ToInt32 a)"

definition js_shl :: "int \<Rightarrow> nat \<Rightarrow> int" where
  "js_shl a n = ToInt32 (push_bit (n mod 32) (ToInt32 a))"

definition js_and :: "int \<Rightarrow> int \<Rightarrow> int" where
  "js_and a b = ToInt32 a AND ToInt32 b"

definition js_or :: "int \<Rightarrow> int \<Rightarrow> int" where
  "js_or a b = ToInt32 a OR ToInt32 b"

definition js_not :: "int \<Rightarrow> int" where
  "js_not a = NOT (ToInt32 a)"

section \<open>Bitmap codec\<close>

type_synonym rows = "int list"
type_synonym grid = "bool list list"

text \<open>\<^verbatim>\<open>emptyRows\<close>: \<^verbatim>\<open>Array.from({ length: ROWS }, () => 0)\<close>.\<close>

definition emptyRows :: rows where
  "emptyRows = map (\<lambda>_. 0) [0..<ROWS]"

text \<open>
  \<^verbatim>\<open>rows[r]\<close> as an operand of \<^verbatim>\<open>>>\<close>: past the end of the array it is \<^verbatim>\<open>undefined\<close>, which
  \<^verbatim>\<open>ToInt32\<close> turns into 0.
\<close>

definition row_operand :: "rows \<Rightarrow> nat \<Rightarrow> int" where
  "row_operand rs r = (if r < length rs then rs ! r else 0)"

text \<open>
  \<^verbatim>\<open>function rowsToGrid(rows) {
    return Array.from({ length: ROWS }, (_, r) =>
      Array.from({ length: COLS }, (_, c) => {
        const bitIndex = COLS - 1 - c
        return ((rows[r] >> bitIndex) & 1) === 1 }))
  }\<close>
\<close>

definition rowsToGrid :: "rows \<Rightarrow> grid" where
  "rowsToGrid rs =
     map (\<lambda>r. map (\<lambda>c. let bitIndex = COLS - 1 - c
                       in js_and (js_shr (row_operand rs r) bitIndex) 1 = 1) [0..<COLS])
       [0..<ROWS]"

text \<open>
  \<^verbatim>\<open>function gridToRows(grid) {
    return grid.map((row) => {
      let v = 0
      for (let c = 0; c < COLS; c++) {
        const bitIndex = COLS - 1 - c
        if (row[c]) v |= 1 << bitIndex
      }
      return v })
  }\<close>
  \<^verbatim>\<open>row[c]\<close> past the end of a row is \<^verbatim>\<open>undefined\<close>, which is falsy.
\<close>

definition cell :: "bool list \<Rightarrow> nat \<Rightarrow> bool" where
  "cell row c = (c < length row \<and> row ! c)"

definition gridRowValue :: "bool list \<Rightarrow> int" where
  "gridRowValue row =
     fold (\<lambda>c v. let bitIndex = COLS - 1 - c
                  in if cell row c then js_or v (js_shl 1 bitIndex) else v) [0..<COLS] 0"

definition gridToRows :: "grid \<Rightarrow> rows" where
  "gridToRows g = map gridRowValue g"

text \<open>A valid row vector: 8 integers, each from 0 to 31.\<close>

definition valid_rows :: "rows \<Rightarrow> bool" where
  "valid_rows rs = (length rs = ROWS \<and> list_all (\<lambda>v. 0 \<le> v \<and> v \<le> 31) rs)"

text \<open>A well-formed matrix: 8 rows of 5 cells.\<close>

definition valid_grid :: "grid \<Rightarrow> bool" where
  "valid_grid g = (length g = ROWS \<and> list_all (\<lambda>row. length row = COLS) g)"

text \<open>The row of cells that \<^verbatim>\<open>rowsToGrid\<close> computes from one row value.\<close>

definition bits_of_row :: "int \<Rightarrow> bool list" where
  "bits_of_row v =
     map (\<lambda>c. let bitIndex = COLS - 1 - c in js_and (js_shr v bitIndex) 1 = 1) [0..<COLS]"

section \<open>Edit history\<close>

text \<open>\<^verbatim>\<open>type History<T> = { past: T[]; present: T; future: T[] }\<close>\<close>

record 'a History =
  past :: "'a list"
  present :: 'a
  future :: "'a list"

text \<open>The state the application starts with.\<close>

definition initialHistory :: "rows History" where
  "initialHistory = \<lparr>past = [], present = emptyRows, future = []\<rparr>"

text \<open>
  \<^verbatim>\<open>h.present.every((v, i) => v === nextRows[i])\<close>: past the end of \<^verbatim>\<open>nextRows\<close> the right-hand
  side is \<^verbatim>\<open>undefined\<close>, which no number is strictly equal to.
\<close>

definition every_same :: "rows \<Rightarrow> rows \<Rightarrow> bool" where
  "every_same p nextRows =
     list_all (\<lambda>i. i < length nextRows \<and> p ! i = nextRows ! i) [0..<length p]"

text \<open>
  \<^verbatim>\<open>function commitRows(nextRows) {
    setHistory((h) => {
      const same = h.present.every((v, i) => v === nextRows[i])
      if (same) return h
      return { past: [...h.past, h.present], present: nextRows, future: [] } })
  }\<close>
\<close>

definition commitRows :: "rows History \<Rightarrow> rows \<Rightarrow> rows History" where
  "commitRows h nextRows =
     (let same = every_same (present h) nextRows
      in if same then h
         else \<lparr>past = past h @ [present h], present = nextRows, future = []\<rparr>)"

text \<open>\<^verbatim>\<open>function clear() { commitRows(emptyRows()) }\<close>\<close>

definition clear :: "rows History \<Rightarrow> rows History" where
  "clear h = commitRows h emptyRows"

text \<open>
  \<^verbatim>\<open>function invert() {
    const next = history.present.map((v) => clampRowValue((~v) & 0b11111))
    commitRows(next)
  }\<close>
\<close>

definition invertRow :: "int \<Rightarrow> int" where
  "invertRow v = clampRowValue (num (js_and (js_not v) 31))"

definition invert :: "rows History \<Rightarrow> rows History" where
  "invert h = (let next = map invertRow (present h) in commitRows h next)"

text \<open>
  \<^verbatim>\<open>function undo() {
    setHistory((h) => {
      if (h.past.length === 0) return h
      const prev = h.past[h.past.length - 1]!
      return { past: h.past.slice(0, -1), present: prev, future: [h.present, ...h.future] } })
  }\<close>
\<close>

definition undo :: "'a History \<Rightarrow> 'a History" where
  "undo h =
     (if length (past h) = 0 then h
      else let prev = past h ! (length (past h) - 1)
           in \<lparr>past = butlast (past h), present = prev, future = present h # future h\<rparr>)"

text \<open>
  \<^verbatim>\<open>function redo() {
    setHistory((h) => {
      if (h.future.length === 0) return h
      const next = h.future[0]!
      return { past: [...h.past, h.present], present: next, future: h.future.slice(1) } })
  }\<close>
\<close>

definition redo :: "'a History \<Rightarrow> 'a History" where
  "redo h =
     (if length (future h) = 0 then h
      else let next = future h ! 0
           in \<lparr>past = past h @ [present h], present = next, future = drop 1 (future h)\<rparr>)"

section \<open>Strings\<close>

text \<open>
  A JavaScript string is a sequence of UTF-16 code units: \<^verbatim>\<open>s.length\<close> counts them and
  \<^verbatim>\<open>s[i]\<close> is the string of the one code unit at index \<open>i\<close>. \<open>str\<close> turns an ASCII
  literal into such a string.
\<close>

type_synonym code_unit = "16 word"
type_synonym jsstring = "code_unit list"

definition str :: "string \<Rightarrow> jsstring" where
  "str s = map of_char s"

definition BASE32 :: jsstring where
  "BASE32 = str ''0123456789ABCDEFGHIJKLMNOPQRSTUV''"

text \<open>
  \<^verbatim>\<open>String.prototype.indexOf\<close>: the least position at which the searched string occurs as a
  contiguous part of the receiver, or -1. The empty string occurs at position 0.
\<close>

fun startsWith :: "jsstring \<Rightarrow> jsstring \<Rightarrow> bool" where
  "startsWith s [] = True"
| "startsWith [] (p # ps) = False"
| "startsWith (x # xs) (p # ps) = (x = p \<and> startsWith xs ps)"

fun indexOf_from :: "jsstring \<Rightarrow> jsstring \<Rightarrow> int \<Rightarrow> int" where
  "indexOf_from [] needle k = (if needle = [] then k else - 1)"
| "indexOf_from (x # xs) needle k =
     (if startsWith (x # xs) needle then k else indexOf_from xs needle (k + 1))"

definition indexOf :: "jsstring \<Rightarrow> jsstring \<Rightarrow> int" where
  "indexOf s needle = indexOf_from s needle 0"

text \<open>
  \<^verbatim>\<open>String.prototype.toUpperCase\<close> on the string of one code unit, as the language defines it
  (the Unicode default case conversion, which includes the one-to-many mappings of
  SpecialCasing). The table has the ASCII letters and every other code unit whose upper-case
  form consists of ASCII code units only: sharp s, dotless i, long s and the ligatures
  U+FB00 to U+FB06. For each remaining code unit the upper-case form contains a code unit
  outside ASCII, so it does not occur in \<open>BASE32\<close>, which is all the program asks of it;
  the model returns such a unit unchanged (as the language does for a lone surrogate).
\<close>

definition toUpperCase_unit :: "code_unit \<Rightarrow> jsstring" where
  "toUpperCase_unit c =
     (if 0x61 \<le> c \<and> c \<le> 0x7A then [c - 0x20]
      else if c = 0xDF then [0x53, 0x53]
      else if c = 0x131 then [0x49]
      else if c = 0x17F then [0x53]
      else if c = 0xFB00 then [0x46, 0x46]
      else if c = 0xFB01 then [0x46, 0x49]
      else if c = 0xFB02 then [0x46, 0x4C]
      else if c = 0xFB03 then [0x46, 0x46, 0x49]
      else if c = 0xFB04 then [0x46, 0x46, 0x4C]
      else if c = 0xFB05 then [0x53, 0x54]
      else if c = 0xFB06 then [0x53, 0x54]
      else [c])"

section \<open>Compact token\<close>

text \<open>\<^verbatim>\<open>BASE32[i]\<close>: the one-unit string at index \<open>i\<close>, or \<^verbatim>\<open>undefined\<close> outside the string.\<close>

definition string_index :: "jsstring \<Rightarrow> int \<Rightarrow> jsstring option" where
  "string_index s i = (if 0 \<le> i \<and> i < int (length s) then Some [s ! nat i] else None)"

text \<open>
  \<^verbatim>\<open>function encodeRowsBase32(rows) {
    return rows.map((v) => BASE32[clampRowValue(v)] ?? '0').join('')
  }\<close>
\<close>

definition encodeRowsBase32 :: "rows \<Rightarrow> jsstring" where
  "encodeRowsBase32 rs =
     concat (map (\<lambda>v. case string_index BASE32 (clampRowValue (num v)) of
                         Some ch \<Rightarrow> ch
                       | None \<Rightarrow> str ''0'') rs)"

text \<open>
  \<^verbatim>\<open>function decodeRowsBase32(s) {
    if (s.length !== ROWS) return null
    const out = []
    for (let i = 0; i < ROWS; i++) {
      const idx = BASE32.indexOf(s[i]!.toUpperCase())
      if (idx < 0) return null
      out.push(idx)
    }
    return out
  }\<close>
  The loop runs over the indices \<open>0, \<dots>, ROWS - 1\<close>; the early return is the \<open>None\<close>
  branch. The length check makes every \<^verbatim>\<open>s[i]\<close> of the loop a code unit of \<open>s\<close>.
\<close>

fun decode_loop :: "jsstring \<Rightarrow> nat list \<Rightarrow> int list \<Rightarrow> int list option" where
  "decode_loop s [] out = Some out"
| "decode_loop s (i # is) out =
     (let idx = indexOf BASE32 (toUpperCase_unit (s ! i))
      in if idx < 0 then None else decode_loop s is (out @ [idx]))"

definition decodeRowsBase32 :: "jsstring \<Rightarrow> rows option" where
  "decodeRowsBase32 s = (if length s \<noteq> ROWS then None else decode_loop s [0..<ROWS] [])"

text \<open>One of the 32 symbols of the alphabet, as a string.\<close>

definition alphabet_symbol :: "jsstring \<Rightarrow> bool" where
  "alphabet_symbol u = (u \<in> set (map (\<lambda>a. [a]) BASE32))"

section \<open>Settings and saved records\<close>

text \<open>
  \<^verbatim>\<open>type Interfacing = 'parallel' | 'i2c'\<close>, \<^verbatim>\<open>type DataType = 'bin' | 'hex'\<close>,
  \<^verbatim>\<open>type LcdColor = 'green' | 'blue'\<close>, each with the string that names it.
\<close>

datatype Interfacing = Parallel | I2c
datatype DataType = Bin | Hex
datatype LcdColor = Green | Blue




text \<open>
  \<^verbatim>\<open>type SaveItem = { id, name, rows, color, interfacing, datatype, createdAt, updatedAt }\<close>
\<close>

record SaveItem =
  s_id :: jsstring
  s_name :: jsstring
  s_rows :: rows
  s_color :: LcdColor
  s_interfacing :: Interfacing
  s_datatype :: DataType
  s_createdAt :: number
  s_updatedAt :: number

text \<open>The state of the application that an import reads and writes.\<close>

record AppState =
  st_color :: LcdColor
  st_interfacing :: Interfacing
  st_datatype :: DataType
  st_history :: "rows History"
  st_saves :: "SaveItem list"

section \<open>JSON values\<close>

text \<open>
  What \<^verbatim>\<open>JSON.parse\<close> returns. An object is the list of its properties, with distinct keys.
  \<open>property x k\<close> is \<^verbatim>\<open>x.k\<close> for the keys the program reads (\<^verbatim>\<open>saves\<close>, \<^verbatim>\<open>character\<close>, \<^verbatim>\<open>rows\<close>,
  \<^verbatim>\<open>id\<close>, \<^verbatim>\<open>name\<close>, \<^verbatim>\<open>color\<close>, \<^verbatim>\<open>interfacing\<close>, \<^verbatim>\<open>datatype\<close>, \<^verbatim>\<open>createdAt\<close>, \<^verbatim>\<open>updatedAt\<close>):
  \<open>None\<close> is \<^verbatim>\<open>undefined\<close>, which is also what these keys give on a boolean, a number, a
  string or an array, and what \<^verbatim>\<open>?.\<close> gives on \<^verbatim>\<open>null\<close>.
\<close>

datatype json =
  JNull
  | JBool bool
  | JNum number
  | JStr jsstring
  | JArr "json list"
  | JObj "(jsstring \<times> json) list"

definition property :: "json \<Rightarrow> jsstring \<Rightarrow> json option" where
  "property x k = (case x of JObj kvs \<Rightarrow> map_of kvs k | _ \<Rightarrow> None)"




section \<open>Import\<close>

text \<open>
  What the import takes from its host: the conversions \<^verbatim>\<open>Number(v)\<close> and \<^verbatim>\<open>String(v)\<close> of the
  language, and the results of the calls of \<^verbatim>\<open>makeId()\<close> (random) and \<^verbatim>\<open>Date.now()\<close> made
  for the record at a given position (\<^verbatim>\<open>Date.now()\<close> is called once for \<^verbatim>\<open>createdAt\<close>, call 0,
  and once for \<^verbatim>\<open>updatedAt\<close>, call 1). Writing the list to the local storage
  (\<^verbatim>\<open>persistSaves\<close>) is left to the caller.
\<close>

record host =
  toNumber :: "json \<Rightarrow> number"
  toString :: "json \<Rightarrow> jsstring"
  makeId :: "nat \<Rightarrow> jsstring"
  dateNow :: "nat \<Rightarrow> nat \<Rightarrow> number"




text \<open>\<^verbatim>\<open>while (rows.length < ROWS) rows.push(0)\<close>\<close>

function pad_rows :: "rows \<Rightarrow> rows" where
  "pad_rows rs = (if length rs < ROWS then pad_rows (rs @ [0]) else rs)"
  by pat_completeness auto
termination
  by (relation "measure (\<lambda>rs. ROWS - length rs)") auto

declare pad_rows.simps [simp del]


definition import_character :: "host \<Rightarrow> json \<Rightarrow> json list \<Rightarrow> AppState \<Rightarrow> AppState" where
  "import_character h ch vs st =
     (let rows = pad_rows (map (\<lambda>v. clampRowValue (toNumber h v)) (take ROWS vs));
          c = property ch (str ''color'');
          i = property ch (str ''interfacing'');
          t = property ch (str ''datatype'')
      in st\<lparr>st_color := (if c = Some (JStr (str ''green'')) then Green
                          else if c = Some (JStr (str ''blue'')) then Blue else st_color st),
             st_interfacing := (if i = Some (JStr (str ''parallel'')) then Parallel
                                else if i = Some (JStr (str ''i2c'')) then I2c
                                else st_interfacing st),
             st_datatype := (if t = Some (JStr (str ''bin'')) then Bin
                             else if t = Some (JStr (str ''hex'')) then Hex
                             else st_datatype st),
             st_history := \<lparr>past = [], present = rows, future = []\<rparr>\<rparr>)"


section \<open>Firmware code generator\<close>

text \<open>
  \<^verbatim>\<open>Number.prototype.toString(radix)\<close> on an integer: a minus sign for a negative number, then
  the digits of its magnitude, with lower-case letters for the digits from ten on.
\<close>

definition digit_char :: "nat \<Rightarrow> code_unit" where
  "digit_char d = str ''0123456789abcdefghijklmnopqrstuvwxyz'' ! d"

function nat_to_radix :: "nat \<Rightarrow> nat \<Rightarrow> jsstring" where
  "nat_to_radix b n =
     (if n < b \<or> b < 2 then [digit_char n]
      else nat_to_radix b (n div b) @ [digit_char (n mod b)])"
  by pat_completeness auto
termination
  by (relation "measure (\<lambda>(b, n). n)") auto

declare nat_to_radix.simps [simp del]

definition toString_radix :: "nat \<Rightarrow> int \<Rightarrow> jsstring" where
  "toString_radix b v =
     (if v < 0 then str ''-'' @ nat_to_radix b (nat (- v)) else nat_to_radix b (nat v))"

text \<open>
  \<^verbatim>\<open>String.prototype.toUpperCase\<close> maps the code units of a string of the Basic Multilingual
  Plane one by one; \<^verbatim>\<open>padStart(n, '0')\<close> puts zeros in front of a string shorter than \<open>n\<close>.
\<close>

definition toUpperCase :: "jsstring \<Rightarrow> jsstring" where
  "toUpperCase s = concat (map toUpperCase_unit s)"

definition padStart0 :: "jsstring \<Rightarrow> nat \<Rightarrow> jsstring" where
  "padStart0 s n = (if n \<le> length s then s else replicate (n - length s) 0x30 @ s)"

text \<open>
  \<^verbatim>\<open>function rowsToBinaryStrings(rows) {
    return rows.map((v) => {
      const bits = v.toString(2).padStart(COLS, '0')
      return `B${bits}` })
  }
  function rowsToHexStrings(rows) {
    return rows.map((v) => `0x${clampRowValue(v).toString(16).toUpperCase().padStart(2, '0')}`)
  }\<close>
\<close>

definition rowsToBinaryStrings :: "rows \<Rightarrow> jsstring list" where
  "rowsToBinaryStrings rs =
     map (\<lambda>v. let bits = padStart0 (toString_radix 2 v) COLS in str ''B'' @ bits) rs"

definition rowsToHexStrings :: "rows \<Rightarrow> jsstring list" where
  "rowsToHexStrings rs =
     map (\<lambda>v. str ''0x'' @ padStart0 (toUpperCase (toString_radix 16 (clampRowValue (num v)))) 2)
       rs"

text \<open>
  \<^verbatim>\<open>String.prototype.replace\<close> with a string pattern: the first occurrence of the pattern is
  replaced, and in the replacement text \<^verbatim>\<open>$$\<close> stands for a dollar sign, \<^verbatim>\<open>$&\<close> for the matched
  text, \<^verbatim>\<open>$`\<close> for the text before the match and \<^verbatim>\<open>$'\<close> for the text after it (a
  string pattern has no groups, so any other dollar sign is kept as it is).
\<close>

fun substitution :: "jsstring \<Rightarrow> jsstring \<Rightarrow> jsstring \<Rightarrow> jsstring \<Rightarrow> jsstring" where
  "substitution matched front rest [] = []"
| "substitution matched front rest [c] = [c]"
| "substitution matched front rest (c # d # cs) =
     (if c = 0x24 \<and> d = 0x24 then 0x24 # substitution matched front rest cs
      else if c = 0x24 \<and> d = 0x26 then matched @ substitution matched front rest cs
      else if c = 0x24 \<and> d = 0x60 then front @ substitution matched front rest cs
      else if c = 0x24 \<and> d = 0x27 then rest @ substitution matched front rest cs
      else c # substitution matched front rest (d # cs))"

definition js_replace :: "jsstring \<Rightarrow> jsstring \<Rightarrow> jsstring \<Rightarrow> jsstring" where
  "js_replace s pat rep =
     (let p = indexOf s pat
      in if p < 0 then s
         else let front = take (nat p) s;
                  rest = drop (nat p + length pat) s
              in front @ substitution pat front rest rep @ rest)"

text \<open>
  \<^verbatim>\<open>String.prototype.trimEnd\<close> removes the white space and line terminators at the end.
\<close>

definition white_space :: "code_unit \<Rightarrow> bool" where
  "white_space c =
     (c \<in> {0x09, 0x0A, 0x0B, 0x0C, 0x0D, 0x20, 0xA0, 0x1680, 0x2028, 0x2029, 0x202F, 0x205F,
            0x3000, 0xFEFF}
      \<or> (0x2000 \<le> c \<and> c \<le> 0x200A))"

definition trimEnd :: "jsstring \<Rightarrow> jsstring" where
  "trimEnd s = rev (dropWhile white_space (rev s))"

text \<open>\<^verbatim>\<open>String.prototype.includes\<close>: the text occurs in the string.\<close>

definition js_includes :: "jsstring \<Rightarrow> jsstring \<Rightarrow> bool" where
  "js_includes s needle = (0 \<le> indexOf s needle)"

text \<open>A template literal, given as its lines; each line ends with a line feed.\<close>

definition template :: "string list \<Rightarrow> jsstring" where
  "template ls = concat (map (\<lambda>l. str l @ [0x0A]) ls)"

text \<open>
  The loop that both versions of \<^verbatim>\<open>buildArduinoCode\<close> end with:
  \<^verbatim>\<open>for (let i = 0; i < ROWS; i++) code = code.replace(`{DataX${i}}`, lines[i]!)
  return code.trimEnd()\<close>
  A missing \<^verbatim>\<open>lines[i]\<close> is \<^verbatim>\<open>undefined\<close>, which \<^verbatim>\<open>replace\<close> turns into the text
  \<^verbatim>\<open>undefined\<close>.
\<close>

definition placeholder :: "nat \<Rightarrow> jsstring" where
  "placeholder i = str ''{DataX'' @ toString_radix 10 (int i) @ str ''}''"

definition line_at :: "jsstring list \<Rightarrow> nat \<Rightarrow> jsstring" where
  "line_at ls i = (if i < length ls then ls ! i else str ''undefined'')"

definition fill_template :: "jsstring \<Rightarrow> jsstring list \<Rightarrow> jsstring" where
  "fill_template code0 ls =
     trimEnd (fold (\<lambda>i code. js_replace code (placeholder i) (line_at ls i)) [0..<ROWS] code0)"

definition code_lines :: "rows \<Rightarrow> DataType \<Rightarrow> jsstring list" where
  "code_lines rs datatype = (if datatype = Hex then rowsToHexStrings rs else rowsToBinaryStrings rs)"

text \<open>
  \<^verbatim>\<open>buildArduinoCode(rows, interfacing, datatype)\<close> with the templates for the hd44780
  library: \<^verbatim>\<open>let code = interfacing === 'parallel' ? templateParallel : templateI2c\<close>.
\<close>

definition templateParallel_hd44780_lines :: "string list" where
  \<open>templateParallel_hd44780_lines = [
      ''#include <hd44780.h>'',
      ''#include <hd44780ioClass/hd44780_pinIO.h>'',
      '''',
      ''// Pin wiring: RS, EN, D4, D5, D6, D7'',
      ''const int LCD_RS = 12;'',
      ''const int LCD_EN = 11;'',
      ''const int LCD_D4 = 5;'',
      ''const int LCD_D5 = 4;'',
      ''const int LCD_D6 = 3;'',
      ''const int LCD_D7 = 2;'',
      '''',
      ''hd44780_pinIO lcd(LCD_RS, LCD_EN, LCD_D4, LCD_D5, LCD_D6, LCD_D7);'',
      '''',
      ''byte customChar[] = {'',
      ''  {DataX0},'',
      ''  {DataX1},'',
      ''  {DataX2},'',
      ''  {DataX3},'',
      ''  {DataX4},'',
      ''  {DataX5},'',
      ''  {DataX6},'',
      ''  {DataX7}'',
      ''};'',
      '''',
      ''void setup() {'',
      ''  int status = lcd.begin(16, 2);'',
      ''  if (status) {'',
      ''    // If you want error details, see: https://github.com/duinoWitchery/hd44780'',
      ''    // status = lcd.status();'',
      ''  }'',
      '''',
      ''  lcd.createChar(0, customChar);'',
      ''  lcd.clear();'',
      ''  lcd.home();'',
      ''  lcd.write((uint8_t)0);'',
      ''}'',
      '''',
      ''void loop() { }'']\<close>

definition templateParallel_hd44780 :: jsstring where
  "templateParallel_hd44780 = template templateParallel_hd44780_lines"

definition templateI2c_hd44780_lines :: "string list" where
  \<open>templateI2c_hd44780_lines = [
      ''#include <hd44780.h>'',
      ''#include <hd44780ioClass/hd44780_I2Cexp.h>'',
      '''',
      ''// Uses the hd44780 "I2Cexp" i/o class for PCF8574 backpacks.'',
      ''// It can auto-detect the I2C address and the pin mapping on most modules.'',
      ''hd44780_I2Cexp lcd;'',
      '''',
      ''byte customChar[] = {'',
      ''  {DataX0},'',
      ''  {DataX1},'',
      ''  {DataX2},'',
      ''  {DataX3},'',
      ''  {DataX4},'',
      ''  {DataX5},'',
      ''  {DataX6},'',
      ''  {DataX7}'',
      ''};'',
      '''',
      ''void setup() {'',
      ''  int status = lcd.begin(16, 2);'',
      ''  if (status) {'',
      ''    // If you want error details, see: https://github.com/duinoWitchery/hd44780'',
      ''    // status = lcd.status();'',
      ''  }'',
      '''',
      ''  lcd.createChar(0, customChar);'',
      ''  lcd.clear();'',
      ''  lcd.home();'',
      ''  lcd.write((uint8_t)0);'',
      ''}'',
      '''',
      ''void loop() { }'']\<close>

definition templateI2c_hd44780 :: jsstring where
  "templateI2c_hd44780 = template templateI2c_hd44780_lines"

definition buildArduinoCode_hd44780 :: "rows \<Rightarrow> Interfacing \<Rightarrow> DataType \<Rightarrow> jsstring" where
  "buildArduinoCode_hd44780 rs interfacing datatype =
     (let lines = code_lines rs datatype;
          code = (if interfacing = Parallel then templateParallel_hd44780 else templateI2c_hd44780)
      in fill_template code lines)"

text \<open>The same function with the templates for the LiquidCrystal libraries.\<close>

definition templateParallel_LiquidCrystal_lines :: "string list" where
  \<open>templateParallel_LiquidCrystal_lines = [
      ''#include <LiquidCrystal.h>'',
      '''',
      ''LiquidCrystal lcd(12, 11, 5, 4, 3, 2); // RS, E, D4, D5, D6, D7'',
      '''',
      ''byte customChar[] = {'',
      ''  {DataX0},'',
      ''  {DataX1},'',
      ''  {DataX2},'',
      ''  {DataX3},'',
      ''  {DataX4},'',
      ''  {DataX5},'',
      ''  {DataX6},'',
      ''  {DataX7}'',
      ''};'',
      '''',
      ''void setup() {'',
      ''  lcd.begin(16, 2);'',
      ''  lcd.createChar(0, customChar);'',
      ''  lcd.home();'',
      ''  lcd.write(0);'',
      ''}'',
      '''',
      ''void loop() { }'']\<close>

definition templateParallel_LiquidCrystal :: jsstring where
  "templateParallel_LiquidCrystal = template templateParallel_LiquidCrystal_lines"

definition templateI2c_LiquidCrystal_lines :: "string list" where
  \<open>templateI2c_LiquidCrystal_lines = [
      ''#include <Wire.h>'',
      ''#include <LiquidCrystal_I2C.h>'',
      '''',
      ''// Set the LCD address to 0x27 in PCF8574 by NXP and Set to 0x3F in PCF8574A by Ti'',
      ''LiquidCrystal_I2C lcd(0x3F, 16, 2);'',
      '''',
      ''byte customChar[] = {'',
      ''  {DataX0},'',
      ''  {DataX1},'',
      ''  {DataX2},'',
      ''  {DataX3},'',
      ''  {DataX4},'',
      ''  {DataX5},'',
      ''  {DataX6},'',
      ''  {DataX7}'',
      ''};'',
      '''',
      ''void setup() {'',
      ''  lcd.begin();'',
      ''  lcd.createChar(0, customChar);'',
      ''  lcd.home();'',
      ''  lcd.write(0);'',
      ''}'',
      '''',
      ''void loop() { }'']\<close>

definition templateI2c_LiquidCrystal :: jsstring where
  "templateI2c_LiquidCrystal = template templateI2c_LiquidCrystal_lines"

definition buildArduinoCode_LiquidCrystal :: "rows \<Rightarrow> Interfacing \<Rightarrow> DataType \<Rightarrow> jsstring" where
  "buildArduinoCode_LiquidCrystal rs interfacing datatype =
     (let lines = code_lines rs datatype;
          code = (if interfacing = Parallel then templateParallel_LiquidCrystal
                  else templateI2c_LiquidCrystal)
      in fill_template code lines)"

text \<open>
  For the proofs about the generated text: the eight lines of a template that hold the
  placeholders, and a map that sends every character of a rendered literal (a digit, one of
  the letters A to F, the letter x) to the digit 0 and keeps every other character.
\<close>

definition slot_lines :: "string list" where
  "slot_lines = [''  {DataX0},'', ''  {DataX1},'', ''  {DataX2},'', ''  {DataX3},'',
                 ''  {DataX4},'', ''  {DataX5},'', ''  {DataX6},'', ''  {DataX7}'']"

definition mask :: "code_unit \<Rightarrow> code_unit" where
  "mask c = (if (0x30 \<le> c \<and> c \<le> 0x39) \<or> (0x41 \<le> c \<and> c \<le> 0x46) \<or> c = 0x78 then 0x30 else c)"

text \<open>A rendered literal: no brace, no dollar sign, and of the length of its style.\<close>

definition literal_ok :: "DataType \<Rightarrow> jsstring \<Rightarrow> bool" where
  "literal_ok dt l \<longleftrightarrow> 0x7B \<notin> set l \<and> 0x24 \<notin> set l
     \<and> map mask l = replicate (if dt = Hex then 4 else 6) 0x30"

text \<open>
  The lines of the array in a template or in a generated text: each entry is indented by two
  spaces, and all but the last are followed by a comma.
\<close>

definition array_body :: "jsstring list \<Rightarrow> jsstring" where
  "array_body xs =
     concat (map (\<lambda>x. [0x20, 0x20] @ x @ [0x2C, 0x0A]) (butlast xs))
     @ [0x20, 0x20] @ last xs @ [0x0A]"

section \<open>Clamping\<close>

lemma Math_trunc_towards_zero:
  "\<bar>real_of_int (Math_trunc x)\<bar> \<le> \<bar>x\<bar> \<and> \<bar>x - real_of_int (Math_trunc x)\<bar> < 1"
  unfolding Math_trunc_def by (cases "0 \<le> x") (simp_all; linarith)+

lemma Math_trunc_of_int: "Math_trunc (of_int k) = k"
  by (simp add: Math_trunc_def)

lemma clampRowValue_range: "0 \<le> clampRowValue v \<and> clampRowValue v \<le> 31"
  by (cases v) (simp_all add: clampRowValue_def isFinite_def)

lemma clampRowValue_num: "0 \<le> k \<Longrightarrow> k \<le> 31 \<Longrightarrow> clampRowValue (num k) = k"
  by (simp add: clampRowValue_def isFinite_def num_def Math_trunc_of_int)

text \<open>
  C4. \<^verbatim>\<open>clampRowValue\<close> is total and its result is an integer between 0 and 31. NaN and
  the two infinities give 0. A finite number is truncated towards zero (the result of
  truncation is no larger in magnitude than the input and less than 1 away from it) and
  then clamped, so -5 gives 0 and 40 gives 31. An integer already in the range is returned
  unchanged.
\<close>

theorem clampRowValue_total:
  "0 \<le> clampRowValue v \<and> clampRowValue v \<le> 31
   \<and> clampRowValue NaN = 0
   \<and> clampRowValue PosInfinity = 0
   \<and> clampRowValue NegInfinity = 0
   \<and> clampRowValue (Finite x) = max 0 (min 31 (Math_trunc x))
   \<and> \<bar>real_of_int (Math_trunc x)\<bar> \<le> \<bar>x\<bar>
   \<and> \<bar>x - real_of_int (Math_trunc x)\<bar> < 1
   \<and> clampRowValue (Finite (- 5)) = 0
   \<and> clampRowValue (Finite 40) = 31
   \<and> (0 \<le> k \<and> k \<le> 31 \<longrightarrow> clampRowValue (Finite (of_int k)) = k)"
proof -
  have fin: "clampRowValue (Finite x) = max 0 (min 31 (Math_trunc x))" for x
    by (simp add: clampRowValue_def isFinite_def)
  have m5: "clampRowValue (Finite (- 5)) = 0"
    by (simp add: fin Math_trunc_def)
  have p40: "clampRowValue (Finite 40) = 31"
    by (simp add: fin Math_trunc_def)
  have idem: "0 \<le> k \<and> k \<le> 31 \<longrightarrow> clampRowValue (Finite (of_int k)) = k"
    using clampRowValue_num [of k] by (simp add: num_def)
  show ?thesis
    using clampRowValue_range [of v] Math_trunc_towards_zero [of x] fin [of x] m5 p40 idem
    by (simp add: clampRowValue_def isFinite_def)
qed

theorem clampRowValue_total_witness:
  "clampRowValue (Finite (7 / 2)) = 3 \<and> clampRowValue (Finite (- 1 / 2)) = 0
   \<and> (0 \<le> (17::int) \<and> (17::int) \<le> 31) \<and> clampRowValue (Finite (of_int 17)) = 17"
  using clampRowValue_total [of NaN "7 / 2" 17] clampRowValue_total [of NaN "- 1 / 2" 17]
  by (simp add: Math_trunc_def)

section \<open>Matrix and rows\<close>

lemma upt_0_5: "[0..<5] = [0, 1, 2, 3, 4]"
  by (simp add: upt_rec)

lemma upt_0_8: "[0..<8] = [0, 1, 2, 3, 4, 5, 6, 7]"
  by (simp add: upt_rec)

lemma row_value_cases:
  "0 \<le> v \<Longrightarrow> v \<le> 31 \<Longrightarrow>
   v \<in> {0, 1, 2, 3, 4, 5, 6, 7, 8, 9, 10, 11, 12, 13, 14, 15, 16, 17, 18, 19, 20,
        21, 22, 23, 24, 25, 26, 27, 28, 29, 30, 31 :: int}"
  by simp presburger

lemmas js_bit_defs = js_and_def js_shr_def js_or_def js_shl_def js_not_def ToInt32_def

lemma ToInt32_small: "0 \<le> v \<Longrightarrow> v \<le> 31 \<Longrightarrow> ToInt32 v = v"
  unfolding ToInt32_def by (rule signed_take_bit_int_eq_self) simp_all

lemma rowsToGrid_bits_of_row:
  "rowsToGrid rs = map (\<lambda>r. bits_of_row (row_operand rs r)) [0..<ROWS]"
  by (simp add: rowsToGrid_def bits_of_row_def)

lemma gridRowValue_bits_of_row: "0 \<le> v \<Longrightarrow> v \<le> 31 \<Longrightarrow> gridRowValue (bits_of_row v) = v"
  apply (drule (1) row_value_cases)
  apply (simp add: gridRowValue_def bits_of_row_def COLS_def upt_0_5 cell_def js_bit_defs)
  apply (elim disjE; simp)
  done

lemma bits_of_row_gridRowValue: 
  assumes "length row = COLS" shows "bits_of_row (gridRowValue row) = row"
proof -
  from assms obtain a b c d e where "row = [a, b, c, d, e]"
    by (auto simp: COLS_def length_Suc_conv eval_nat_numeral)
  then show ?thesis
    by (cases a; cases b; cases c; cases d; cases e;
        simp add: gridRowValue_def bits_of_row_def COLS_def upt_0_5 cell_def js_bit_defs)
qed

lemma bits_of_row_nth:
  assumes "0 \<le> v" "v \<le> 31" "c < COLS"
  shows "bits_of_row v ! c = bit v (COLS - 1 - c)"
proof -
  have "js_and (js_shr v k) 1 = 1 \<longleftrightarrow> bit v k" if "k < 32" for k
  proof -
    have "0 \<le> drop_bit k v" "drop_bit k v \<le> 31"
      using assms(1,2) zdiv_mono2 [of v 1 "2 ^ k"]
      by (simp_all add: drop_bit_eq_div pos_imp_zdiv_nonneg_iff)
    then show ?thesis
      using that assms(1,2)
      by (simp add: js_and_def js_shr_def ToInt32_small and_one_eq bit_iff_odd_drop_bit
          mod_2_eq_odd)
  qed
  moreover have "COLS - 1 - c < 32" by (simp add: COLS_def)
  ultimately show ?thesis
    using assms(3) by (simp add: bits_of_row_def)
qed

lemma gridToRows_rowsToGrid:
  assumes "valid_rows r" shows "gridToRows (rowsToGrid r) = r"
proof -
  from assms have len: "length r = ROWS" and rng: "\<forall>i<ROWS. 0 \<le> r ! i \<and> r ! i \<le> 31"
    by (simp_all add: valid_rows_def list_all_length)
  have "gridToRows (rowsToGrid r) = map (\<lambda>i. gridRowValue (bits_of_row (r ! i))) [0..<ROWS]"
    by (simp add: gridToRows_def rowsToGrid_bits_of_row row_operand_def len)
  also have "\<dots> = map (\<lambda>i. r ! i) [0..<ROWS]"
    using rng by (intro map_cong refl gridRowValue_bits_of_row) simp_all
  also have "\<dots> = r"
    using len map_nth [of r] by simp
  finally show ?thesis .
qed

lemma rowsToGrid_gridToRows:
  assumes "valid_grid m" shows "rowsToGrid (gridToRows m) = m"
proof -
  from assms have len: "length m = ROWS" and rws: "\<forall>i<ROWS. length (m ! i) = COLS"
    by (simp_all add: valid_grid_def list_all_length)
  have "rowsToGrid (gridToRows m) = map (\<lambda>i. bits_of_row (gridRowValue (m ! i))) [0..<ROWS]"
    by (simp add: gridToRows_def rowsToGrid_bits_of_row row_operand_def len)
  also have "\<dots> = map (\<lambda>i. m ! i) [0..<ROWS]"
    using rws by (intro map_cong refl bits_of_row_gridRowValue) simp_all
  also have "\<dots> = m"
    using len map_nth [of m] by simp
  finally show ?thesis .
qed

text \<open>
  C1. For every matrix of 8 rows of 5 cells, \<^verbatim>\<open>rowsToGrid (gridToRows m)\<close> is \<open>m\<close>; for every
  vector of 8 row values between 0 and 31, \<^verbatim>\<open>gridToRows (rowsToGrid r)\<close> is \<open>r\<close>; and the
  cell in column \<open>c\<close> of row \<open>i\<close> is bit \<open>COLS - 1 - c\<close> of the row value \<open>r ! i\<close>.
\<close>

theorem matrix_rows_round_trip:
  "(valid_grid m \<longrightarrow> rowsToGrid (gridToRows m) = m)
   \<and> (valid_rows r \<longrightarrow> gridToRows (rowsToGrid r) = r)
   \<and> (valid_rows r \<and> i < ROWS \<and> c < COLS \<longrightarrow>
        rowsToGrid r ! i ! c = bit (r ! i) (COLS - 1 - c))"
proof -
  have "rowsToGrid r ! i ! c = bit (r ! i) (COLS - 1 - c)"
    if "valid_rows r" "i < ROWS" "c < COLS"
  proof -
    from that have "0 \<le> r ! i" "r ! i \<le> 31" "length r = ROWS"
      by (simp_all add: valid_rows_def list_all_length)
    with that show ?thesis
      by (simp add: rowsToGrid_bits_of_row row_operand_def bits_of_row_nth)
  qed
  then show ?thesis
    using rowsToGrid_gridToRows gridToRows_rowsToGrid by blast
qed

theorem matrix_rows_round_trip_witness:
  "valid_grid (replicate 8 [True, False, False, True, True])
   \<and> rowsToGrid (gridToRows (replicate 8 [True, False, False, True, True]))
       = replicate 8 [True, False, False, True, True]
   \<and> valid_rows [31, 17, 17, 31, 1, 1, 31, 0]
   \<and> gridToRows (rowsToGrid [31, 17, 17, 31, 1, 1, 31, 0]) = [31, 17, 17, 31, 1, 1, 31, 0]
   \<and> rowsToGrid [31, 17, 17, 31, 1, 1, 31, 0] ! 1 ! 0 = bit (17 :: int) 4"
proof -
  have g: "valid_grid (replicate 8 [True, False, False, True, True])"
    by (simp add: valid_grid_def ROWS_def COLS_def list_all_length)
  have r: "valid_rows [31, 17, 17, 31, 1, 1, 31, 0]"
    by (simp add: valid_rows_def ROWS_def)
  show ?thesis
    using g r matrix_rows_round_trip [of "replicate 8 [True, False, False, True, True]"
        "[31, 17, 17, 31, 1, 1, 31, 0]" 1 0]
    by (simp add: ROWS_def COLS_def)
qed

section \<open>Edit history\<close>

lemma every_same_iff: "every_same p n \<longleftrightarrow> length p \<le> length n \<and> take (length p) n = p"
proof
  assume a: "every_same p n"
  show "length p \<le> length n \<and> take (length p) n = p"
  proof (cases "length p")
    case 0
    then show ?thesis by simp
  next
    case (Suc k)
    with a have "k < length n" by (simp add: every_same_def list_all_iff)
    with Suc have le: "length p \<le> length n" by simp
    moreover from a le have "take (length p) n = p"
      by (intro nth_equalityI) (simp_all add: every_same_def list_all_iff)
    ultimately show ?thesis by simp
  qed
next
  assume a: "length p \<le> length n \<and> take (length p) n = p"
  then have "\<forall>i<length p. p ! i = n ! i"
    by (metis nth_take)
  with a show "every_same p n"
    by (auto simp: every_same_def list_all_iff)
qed

lemma every_same_same_length: "length p = length n \<Longrightarrow> every_same p n \<longleftrightarrow> n = p"
  by (simp add: every_same_iff)

text \<open>
  C5. For a history whose present is a vector of 8 rows and a vector \<open>r\<close> of 8 rows:
  if \<open>r\<close> equals the present element by element, \<^verbatim>\<open>commitRows\<close> returns the history
  unchanged; otherwise the new past is the old past with the old present appended at the
  end, the new present is \<open>r\<close> and the new future is empty.
\<close>

theorem commitRows_rule:
  assumes "length (present h) = ROWS" and "length r = ROWS"
  shows "(r = present h \<longrightarrow> commitRows h r = h)
   \<and> (r \<noteq> present h \<longrightarrow>
        commitRows h r = \<lparr>past = past h @ [present h], present = r, future = []\<rparr>)"
  using assms by (simp add: commitRows_def every_same_same_length)

theorem commitRows_rule_witness:
  "commitRows \<lparr>past = [[1, 2, 3, 4, 5, 6, 7, 8]], present = [0, 0, 0, 0, 0, 0, 0, 1],
                future = [[9, 9, 9, 9, 9, 9, 9, 9]]\<rparr> [0, 0, 0, 0, 0, 0, 0, 1]
     = \<lparr>past = [[1, 2, 3, 4, 5, 6, 7, 8]], present = [0, 0, 0, 0, 0, 0, 0, 1],
        future = [[9, 9, 9, 9, 9, 9, 9, 9]]\<rparr>
   \<and> commitRows \<lparr>past = [[1, 2, 3, 4, 5, 6, 7, 8]], present = [0, 0, 0, 0, 0, 0, 0, 1],
                future = [[9, 9, 9, 9, 9, 9, 9, 9]]\<rparr> [0, 0, 0, 0, 0, 0, 0, 2]
     = \<lparr>past = [[1, 2, 3, 4, 5, 6, 7, 8], [0, 0, 0, 0, 0, 0, 0, 1]],
        present = [0, 0, 0, 0, 0, 0, 0, 2], future = []\<rparr>"
  using commitRows_rule [of "\<lparr>past = [[1, 2, 3, 4, 5, 6, 7, 8]], present = [0, 0, 0, 0, 0, 0, 0, 1],
                future = [[9, 9, 9, 9, 9, 9, 9, 9]]\<rparr>" "[0, 0, 0, 0, 0, 0, 0, 1]"]
    commitRows_rule [of "\<lparr>past = [[1, 2, 3, 4, 5, 6, 7, 8]], present = [0, 0, 0, 0, 0, 0, 0, 1],
                future = [[9, 9, 9, 9, 9, 9, 9, 9]]\<rparr>" "[0, 0, 0, 0, 0, 0, 0, 2]"]
  by (simp add: ROWS_def)

lemma emptyRows_eq: "emptyRows = [0, 0, 0, 0, 0, 0, 0, 0]"
  by (simp add: emptyRows_def ROWS_def upt_0_8)

text \<open>
  C6. \<^verbatim>\<open>undo\<close> returns a history with an empty past unchanged and \<^verbatim>\<open>redo\<close> returns a
  history with an empty future unchanged. From the initial history, committing
  \<open>[1,0,0,0,0,0,0,0]\<close> and undoing gives the all-zero present, and redoing after that gives
  the present \<open>[1,0,0,0,0,0,0,0]\<close>.
\<close>

theorem undo_redo_behaviour:
  "(past h = [] \<longrightarrow> undo h = h)
   \<and> (future h = [] \<longrightarrow> redo h = h)
   \<and> present (undo (commitRows initialHistory [1, 0, 0, 0, 0, 0, 0, 0]))
       = [0, 0, 0, 0, 0, 0, 0, 0]
   \<and> present (redo (undo (commitRows initialHistory [1, 0, 0, 0, 0, 0, 0, 0])))
       = [1, 0, 0, 0, 0, 0, 0, 0]"
proof -
  have c: "commitRows initialHistory [1, 0, 0, 0, 0, 0, 0, 0]
           = \<lparr>past = [[0, 0, 0, 0, 0, 0, 0, 0]], present = [1, 0, 0, 0, 0, 0, 0, 0], future = []\<rparr>"
    by (simp add: commitRows_def initialHistory_def emptyRows_eq every_same_same_length)
  have u: "undo (commitRows initialHistory [1, 0, 0, 0, 0, 0, 0, 0])
           = \<lparr>past = [], present = [0, 0, 0, 0, 0, 0, 0, 0], future = [[1, 0, 0, 0, 0, 0, 0, 0]]\<rparr>"
    by (simp add: c undo_def)
  have r: "redo (undo (commitRows initialHistory [1, 0, 0, 0, 0, 0, 0, 0]))
           = \<lparr>past = [[0, 0, 0, 0, 0, 0, 0, 0]], present = [1, 0, 0, 0, 0, 0, 0, 0], future = []\<rparr>"
    by (simp add: u redo_def)
  have a: "past h = [] \<longrightarrow> undo h = h"
    by (simp add: undo_def)
  have b: "future h = [] \<longrightarrow> redo h = h"
    by (simp add: redo_def)
  have pu: "present (undo (commitRows initialHistory [1, 0, 0, 0, 0, 0, 0, 0]))
            = [0, 0, 0, 0, 0, 0, 0, 0]"
    by (simp add: u)
  have pr: "present (redo (undo (commitRows initialHistory [1, 0, 0, 0, 0, 0, 0, 0])))
            = [1, 0, 0, 0, 0, 0, 0, 0]"
    by (simp add: r)
  from a b pu pr show ?thesis
    by blast
qed

theorem undo_redo_behaviour_witness:
  "past initialHistory = [] \<and> undo initialHistory = initialHistory
   \<and> future initialHistory = [] \<and> redo initialHistory = initialHistory"
  using undo_redo_behaviour [of initialHistory] by (simp add: initialHistory_def)

section \<open>Invert\<close>

lemma invertRow_range: "0 \<le> invertRow v \<and> invertRow v \<le> 31"
  by (simp add: invertRow_def clampRowValue_range)

lemma invertRow_invertRow: "0 \<le> v \<Longrightarrow> v \<le> 31 \<Longrightarrow> invertRow (invertRow v) = v"
  apply (drule (1) row_value_cases)
  apply (simp add: invertRow_def)
  apply (elim disjE; simp add: js_and_def js_not_def ToInt32_def clampRowValue_num)
  done

lemma invertRow_neq: "0 \<le> v \<Longrightarrow> v \<le> 31 \<Longrightarrow> invertRow v \<noteq> v"
  apply (drule (1) row_value_cases)
  apply (simp add: invertRow_def)
  apply (elim disjE; simp add: js_and_def js_not_def ToInt32_def clampRowValue_num)
  done


text \<open>
  C7. For every vector of 8 row values between 0 and 31, applying the per-row
  transformation \<^verbatim>\<open>clampRowValue((~v) & 0b11111)\<close> twice gives the vector back, and so two
  \<^verbatim>\<open>invert\<close> steps on a history restore its present.
\<close>

theorem invert_self_inverse:
  "(valid_rows r \<longrightarrow> map invertRow (map invertRow r) = r)
   \<and> (valid_rows (present h) \<longrightarrow> present (invert (invert h)) = present h)"
proof -
  have twice: "map invertRow (map invertRow r) = r" if "valid_rows r" for r
  proof -
    from that have "\<forall>v\<in>set r. 0 \<le> v \<and> v \<le> 31"
      by (simp add: valid_rows_def list_all_iff)
    then have "map (invertRow \<circ> invertRow) r = map id r"
      by (intro map_cong refl) (simp add: invertRow_invertRow)
    then show ?thesis by simp
  qed
  have step: "present (invert h) = map invertRow (present h)" if "valid_rows (present h)" for h
  proof -
    from that obtain v where "v \<in> set (present h)" "0 \<le> v" "v \<le> 31"
      by (cases "present h") (auto simp: valid_rows_def ROWS_def)
    then have "map invertRow (present h) \<noteq> present h"
      using invertRow_neq [of v] by (metis map_eq_conv map_ident)
    then show ?thesis
      by (simp add: invert_def commitRows_def every_same_same_length)
  qed
  have valid: "valid_rows (map invertRow r)" if "valid_rows r" for r
    using that by (simp add: valid_rows_def list_all_iff invertRow_range)
  have "present (invert (invert h)) = present h" if v: "valid_rows (present h)"
  proof -
    have "valid_rows (present (invert h))"
      using v by (simp add: step valid)
    then have "present (invert (invert h)) = map invertRow (present (invert h))"
      by (rule step)
    also have "\<dots> = map invertRow (map invertRow (present h))"
      using v by (simp only: step)
    also have "\<dots> = present h"
      using v by (rule twice)
    finally show ?thesis .
  qed
  with twice show ?thesis by blast
qed

theorem invert_self_inverse_witness:
  "valid_rows [31, 17, 17, 31, 1, 1, 31, 0]
   \<and> map invertRow [31, 17, 17, 31, 1, 1, 31, 0] = [0, 14, 14, 0, 30, 30, 0, 31]
   \<and> map invertRow (map invertRow [31, 17, 17, 31, 1, 1, 31, 0]) = [31, 17, 17, 31, 1, 1, 31, 0]
   \<and> present (invert (invert initialHistory)) = [0, 0, 0, 0, 0, 0, 0, 0]"
proof -
  have r: "valid_rows [31, 17, 17, 31, 1, 1, 31, 0]"
    by (simp add: valid_rows_def ROWS_def)
  have z: "valid_rows (present initialHistory)"
    by (simp add: valid_rows_def ROWS_def initialHistory_def emptyRows_eq)
  have m: "map invertRow [31, 17, 17, 31, 1, 1, 31, 0] = [0, 14, 14, 0, 30, 30, 0, 31]"
    by (simp add: invertRow_def js_and_def js_not_def ToInt32_def clampRowValue_num)
  show ?thesis
    using r z m invert_self_inverse [of "[31, 17, 17, 31, 1, 1, 31, 0]" initialHistory]
    by (simp add: initialHistory_def emptyRows_eq)
qed

section \<open>Compact token\<close>

lemma BASE32_eq:
  "BASE32 = [0x30, 0x31, 0x32, 0x33, 0x34, 0x35, 0x36, 0x37, 0x38, 0x39,
     0x41, 0x42, 0x43, 0x44, 0x45, 0x46, 0x47, 0x48, 0x49, 0x4A, 0x4B, 0x4C, 0x4D, 0x4E, 0x4F,
     0x50, 0x51, 0x52, 0x53, 0x54, 0x55, 0x56]"
  by (simp add: BASE32_def str_def)

lemma length_BASE32: "length BASE32 = 32"
  by (simp add: BASE32_eq)

lemma startsWith_length: "startsWith s p \<Longrightarrow> length p \<le> length s"
  by (induction s p rule: startsWith.induct) simp_all

text \<open>A position found by \<^verbatim>\<open>indexOf\<close> lies inside the string that was searched.\<close>

lemma indexOf_from_bounds:
  "0 \<le> indexOf_from s needle k \<Longrightarrow> 0 \<le> k \<Longrightarrow>
   k \<le> indexOf_from s needle k \<and> indexOf_from s needle k + int (length needle) \<le> k + int (length s)"
proof (induction s arbitrary: k)
  case Nil
  then show ?case by (simp split: if_splits)
next
  case (Cons x xs)
  show ?case
  proof (cases "startsWith (x # xs) needle")
    case True
    then show ?thesis
      using startsWith_length [of "x # xs" needle] by simp
  next
    case False
    with Cons.prems Cons.IH [of "k + 1"] show ?thesis by simp
  qed
qed

lemma indexOf_BASE32_range:
  "0 \<le> indexOf BASE32 u \<Longrightarrow> indexOf BASE32 u \<le> 31"
proof -
  assume a: "0 \<le> indexOf BASE32 u"
  then have b: "indexOf BASE32 u + int (length u) \<le> 32"
    using indexOf_from_bounds [of BASE32 u 0] by (simp add: indexOf_def length_BASE32)
  show ?thesis
  proof (cases u)
    case Nil
    then show ?thesis by (simp add: indexOf_def BASE32_eq)
  next
    case (Cons c cs)
    with b show ?thesis by simp
  qed
qed

text \<open>What the loop returns: the positions of the code units, unless one is not found.\<close>

lemma decode_loop_Some:
  "decode_loop s is out = Some res \<Longrightarrow>
   res = out @ map (\<lambda>i. indexOf BASE32 (toUpperCase_unit (s ! i))) is
   \<and> (\<forall>i \<in> set is. 0 \<le> indexOf BASE32 (toUpperCase_unit (s ! i)))"
proof (induction "is" arbitrary: out)
  case Nil
  then show ?case by simp
next
  case (Cons i "is")
  let ?idx = "indexOf BASE32 (toUpperCase_unit (s ! i))"
  from Cons.prems have found: "0 \<le> ?idx"
    by (simp add: Let_def split: if_splits)
  with Cons.prems have "decode_loop s is (out @ [?idx]) = Some res"
    by (simp add: Let_def)
  from Cons.IH [OF this] found show ?case by simp
qed

lemma decode_loop_all_found:
  "\<forall>i \<in> set is. 0 \<le> indexOf BASE32 (toUpperCase_unit (s ! i)) \<Longrightarrow>
   decode_loop s is out = Some (out @ map (\<lambda>i. indexOf BASE32 (toUpperCase_unit (s ! i))) is)"
  by (induction "is" arbitrary: out) (simp_all add: Let_def)

lemma decode_loop_not_found:
  "i \<in> set is \<Longrightarrow> indexOf BASE32 (toUpperCase_unit (s ! i)) < 0 \<Longrightarrow> decode_loop s is out = None"
  by (induction "is" arbitrary: out) (auto simp: Let_def)

lemma decodeRowsBase32_wrong_length: "length s \<noteq> ROWS \<Longrightarrow> decodeRowsBase32 s = None"
  by (simp add: decodeRowsBase32_def)

lemma decodeRowsBase32_not_found:
  "i < ROWS \<Longrightarrow> indexOf BASE32 (toUpperCase_unit (s ! i)) < 0 \<Longrightarrow> decodeRowsBase32 s = None"
  using decode_loop_not_found [of i "[0..<ROWS]" s "[]"] by (simp add: decodeRowsBase32_def)

text \<open>Each alphabet symbol is its own upper-case form and is found at its own position.\<close>

lemma indexOf_symbol:
  "0 \<le> v \<Longrightarrow> v \<le> 31 \<Longrightarrow> indexOf BASE32 (toUpperCase_unit (BASE32 ! nat v)) = v"
  apply (drule (1) row_value_cases)
  apply (elim insertE emptyE; simp add: BASE32_eq toUpperCase_unit_def indexOf_def)
  done

lemma encodeRowsBase32_valid:
  assumes "valid_rows r"
  shows "encodeRowsBase32 r = map (\<lambda>v. BASE32 ! nat v) r"
proof -
  from assms have "\<forall>v \<in> set r. 0 \<le> v \<and> v \<le> 31"
    by (simp add: valid_rows_def list_all_iff)
  then have "map (\<lambda>v. case string_index BASE32 (clampRowValue (num v)) of
                        Some ch \<Rightarrow> ch | None \<Rightarrow> str ''0'') r
             = map (\<lambda>v. [BASE32 ! nat v]) r"
    by (intro map_cong refl) (auto simp: clampRowValue_num string_index_def length_BASE32)
  then show ?thesis
    unfolding encodeRowsBase32_def by (simp only: concat_map_singleton)
qed

text \<open>
  C2. For every vector \<open>r\<close> of 8 row values between 0 and 31, the token
  \<^verbatim>\<open>encodeRowsBase32 r\<close> has one alphabet character per row, in row order, and
  \<^verbatim>\<open>decodeRowsBase32\<close> of it returns exactly \<open>r\<close>.
\<close>

theorem token_round_trip:
  assumes "valid_rows r"
  shows "encodeRowsBase32 r = map (\<lambda>v. BASE32 ! nat v) r
   \<and> decodeRowsBase32 (encodeRowsBase32 r) = Some r"
proof -
  let ?s = "map (\<lambda>v. BASE32 ! nat v) r"
  from assms have len: "length r = ROWS" and rng: "\<forall>i<ROWS. 0 \<le> r ! i \<and> r ! i \<le> 31"
    by (simp_all add: valid_rows_def list_all_length)
  have idx: "indexOf BASE32 (toUpperCase_unit (?s ! i)) = r ! i" if "i < ROWS" for i
    using that len rng by (simp add: indexOf_symbol)
  then have "\<forall>i \<in> set [0..<ROWS]. 0 \<le> indexOf BASE32 (toUpperCase_unit (?s ! i))"
    using rng by simp
  then have "decode_loop ?s [0..<ROWS] []
             = Some ([] @ map (\<lambda>i. indexOf BASE32 (toUpperCase_unit (?s ! i))) [0..<ROWS])"
    by (rule decode_loop_all_found)
  also have "map (\<lambda>i. indexOf BASE32 (toUpperCase_unit (?s ! i))) [0..<ROWS]
             = map (\<lambda>i. r ! i) [0..<ROWS]"
    by (intro map_cong refl) (simp add: idx)
  also have "\<dots> = r"
    using len map_nth [of r] by simp
  finally have "decodeRowsBase32 ?s = Some r"
    by (simp add: decodeRowsBase32_def len)
  then show ?thesis
    by (simp add: encodeRowsBase32_valid [OF assms])
qed

theorem token_round_trip_witness:
  "valid_rows [31, 17, 17, 31, 1, 1, 31, 0]
   \<and> encodeRowsBase32 [31, 17, 17, 31, 1, 1, 31, 0] = str ''VHHV11V0''
   \<and> decodeRowsBase32 (str ''VHHV11V0'') = Some [31, 17, 17, 31, 1, 1, 31, 0]"
proof -
  have r: "valid_rows [31, 17, 17, 31, 1, 1, 31, 0]"
    by (simp add: valid_rows_def ROWS_def)
  note e = token_round_trip [OF r, THEN conjunct1]
  note d = token_round_trip [OF r, THEN conjunct2]
  have t: "encodeRowsBase32 [31, 17, 17, 31, 1, 1, 31, 0] = str ''VHHV11V0''"
    by (simp add: e BASE32_eq str_def)
  from d have "decodeRowsBase32 (str ''VHHV11V0'') = Some [31, 17, 17, 31, 1, 1, 31, 0]"
    by (simp only: t)
  with r t show ?thesis
    by (simp only: simp_thms)
qed

text \<open>
  C10. Whenever \<^verbatim>\<open>decodeRowsBase32\<close> returns a value, the value is a list of exactly 8
  integers, each between 0 and 31.
\<close>

theorem decodeRowsBase32_valid:
  assumes "decodeRowsBase32 s = Some out"
  shows "length out = 8 \<and> (\<forall>v \<in> set out. 0 \<le> v \<and> v \<le> 31)"
proof -
  from assms have "decode_loop s [0..<ROWS] [] = Some out"
    by (simp add: decodeRowsBase32_def split: if_splits)
  from decode_loop_Some [OF this]
  have out: "out = map (\<lambda>i. indexOf BASE32 (toUpperCase_unit (s ! i))) [0..<ROWS]"
    and found: "\<forall>i \<in> set [0..<ROWS]. 0 \<le> indexOf BASE32 (toUpperCase_unit (s ! i))"
    by simp_all
  from out have "length out = 8"
    by (simp add: ROWS_def)
  moreover from out found have "\<forall>v \<in> set out. 0 \<le> v \<and> v \<le> 31"
    by (auto simp: indexOf_BASE32_range)
  ultimately show ?thesis by simp
qed

theorem decodeRowsBase32_valid_witness:
  "decodeRowsBase32 (str ''vv01abcd'') = Some [31, 31, 0, 1, 10, 11, 12, 13]
   \<and> length [31, 31, 0, 1, 10, 11, 12, 13 :: int] = 8
   \<and> list_all (\<lambda>v. 0 \<le> v \<and> v \<le> 31) [31, 31, 0, 1, 10, 11, 12, 13 :: int]"
proof -
  have d: "decodeRowsBase32 (str ''vv01abcd'') = Some [31, 31, 0, 1, 10, 11, 12, 13]"
    by (simp add: decodeRowsBase32_def ROWS_def upt_0_8 toUpperCase_unit_def indexOf_def
        BASE32_eq str_def)
  show ?thesis
    using d decodeRowsBase32_valid [OF d] by simp
qed

lemma decodeRowsBase32_None_iff:
  "decodeRowsBase32 s = None \<longleftrightarrow>
   length s \<noteq> ROWS \<or> (\<exists>i<ROWS. indexOf BASE32 (toUpperCase_unit (s ! i)) < 0)"
proof (cases "\<exists>i<ROWS. indexOf BASE32 (toUpperCase_unit (s ! i)) < 0")
  case True
  then show ?thesis
    using decodeRowsBase32_not_found by blast
next
  case False
  then have "\<forall>i \<in> set [0..<ROWS]. 0 \<le> indexOf BASE32 (toUpperCase_unit (s ! i))"
    by (metis atLeastLessThan_iff not_less set_upt)
  from decode_loop_all_found [OF this, of "[]"] False show ?thesis
    by (simp add: decodeRowsBase32_def)
qed

text \<open>
  C3. A token whose length is not 8, or one with a code unit whose upper-case form is not
  found by \<^verbatim>\<open>indexOf\<close>, is rejected (the two lemmas above). But \<^verbatim>\<open>indexOf\<close> searches for
  the whole upper-case form as a substring of the alphabet, and the upper-case form of a
  code unit can be longer than one unit: that of the ligature U+FB05 is \<open>ST\<close>, which is
  not one of the 32 symbols and yet occurs in the alphabet at position 28. The token of
  eight such ligatures has length 8 and is decoded to eight times 28 instead of being
  rejected.
\<close>

theorem decodeRowsBase32_accepts_ligature:
  "length [0xFB05, 0xFB05, 0xFB05, 0xFB05, 0xFB05, 0xFB05, 0xFB05, 0xFB05 :: code_unit] = 8
   \<and> toUpperCase_unit 0xFB05 = str ''ST''
   \<and> \<not> alphabet_symbol (toUpperCase_unit 0xFB05)
   \<and> indexOf BASE32 (toUpperCase_unit 0xFB05) = 28
   \<and> decodeRowsBase32 [0xFB05, 0xFB05, 0xFB05, 0xFB05, 0xFB05, 0xFB05, 0xFB05, 0xFB05]
       = Some [28, 28, 28, 28, 28, 28, 28, 28]"
  by (simp add: decodeRowsBase32_def ROWS_def upt_0_8 toUpperCase_unit_def indexOf_def
      BASE32_eq str_def alphabet_symbol_def)

section \<open>Import of a list of records\<close>












section \<open>Import of a single character\<close>

lemma pad_rows_eq: "pad_rows rs = rs @ replicate (ROWS - length rs) 0"
proof (induction rs rule: pad_rows.induct)
  case (1 rs)
  show ?case
  proof (cases "length rs < ROWS")
    case True
    then have "ROWS - length rs = Suc (ROWS - length (rs @ [0]))"
      by simp
    with True "1.IH" show ?thesis
      by (subst pad_rows.simps) (simp add: replicate_app_Cons_same)
  next
    case False
    then show ?thesis
      by (subst pad_rows.simps) simp
  qed
qed

text \<open>The import of a single character is where a short \<^verbatim>\<open>rows\<close> array is padded with zeros.\<close>

lemma import_character_valid_rows:
  "valid_rows (present (st_history (import_character h ch vs st)))"
  by (auto simp: import_character_def Let_def pad_rows_eq valid_rows_def list_all_iff
      clampRowValue_range)

section \<open>Searching and replacing\<close>

lemma startsWith_iff: "startsWith s p \<longleftrightarrow> (\<exists>b. s = p @ b)"
  by (induction s p rule: startsWith.induct) auto

lemma indexOf_from_found_iff:
  "0 \<le> k \<Longrightarrow> 0 \<le> indexOf_from s n k \<longleftrightarrow> (\<exists>a b. s = a @ n @ b)"
proof (induction s arbitrary: k)
  case Nil
  then show ?case by simp
next
  case (Cons x xs)
  show ?case
  proof (cases "startsWith (x # xs) n")
    case True
    then obtain b where "x # xs = [] @ n @ b"
      by (auto simp: startsWith_iff)
    with True Cons.prems show ?thesis
      by (metis indexOf_from.simps(2))
  next
    case False
    have "(\<exists>a b. x # xs = a @ n @ b) \<longleftrightarrow> (\<exists>a b. xs = a @ n @ b)"
    proof
      assume "\<exists>a b. x # xs = a @ n @ b"
      then obtain a b where ab: "x # xs = a @ n @ b" by blast
      with False have "a \<noteq> []"
        by (auto simp: startsWith_iff)
      then obtain a' where "a = x # a'"
        using ab by (cases a) auto
      with ab show "\<exists>a b. xs = a @ n @ b" by auto
    next
      assume "\<exists>a b. xs = a @ n @ b"
      then obtain a b where "xs = a @ n @ b" by blast
      then have "x # xs = (x # a) @ n @ b" by simp
      then show "\<exists>a b. x # xs = a @ n @ b" by blast
    qed
    with False Cons.prems Cons.IH [of "k + 1"] show ?thesis by simp
  qed
qed

lemma js_includes_iff: "js_includes s n \<longleftrightarrow> (\<exists>a b. s = a @ n @ b)"
  by (simp add: js_includes_def indexOf_def indexOf_from_found_iff)

lemma js_includes_Nil: "js_includes s []"
  unfolding js_includes_iff by (metis append_Nil)

lemma js_includes_append1: "js_includes s n \<Longrightarrow> js_includes (s @ t) n"
  unfolding js_includes_iff by (metis append.assoc)

lemma js_includes_append2: "js_includes t n \<Longrightarrow> js_includes (s @ t) n"
  unfolding js_includes_iff by (metis append.assoc)

lemma js_includes_map: "js_includes s n \<Longrightarrow> js_includes (map f s) (map f n)"
  unfolding js_includes_iff by (metis map_append)

lemma js_includes_line_split:
  assumes "0x0A \<notin> set n"
  shows "js_includes (a @ 0x0A # b) n \<longleftrightarrow> js_includes a n \<or> js_includes b n"
proof
  assume "js_includes (a @ 0x0A # b) n"
  then obtain x y where e: "a @ 0x0A # b = x @ n @ y"
    unfolding js_includes_iff by blast
  then consider us where "a = x @ us" "us @ 0x0A # b = n @ y"
    | us where "a @ us = x" "0x0A # b = us @ n @ y"
    by (auto simp: append_eq_append_conv2)
  then show "js_includes a n \<or> js_includes b n"
  proof cases
    case 1
    from 1(2) consider vs where "us = n @ vs" | vs where "us @ vs = n" "0x0A # b = vs @ y"
      by (auto simp: append_eq_append_conv2)
    then show ?thesis
    proof cases
      case 1
      with \<open>a = x @ us\<close> show ?thesis
        unfolding js_includes_iff by blast
    next
      case 2
      with assms have "vs = []"
        by (cases vs) auto
      with 2 \<open>a = x @ us\<close> have "a = x @ n @ []" by simp
      then show ?thesis
        unfolding js_includes_iff by blast
    qed
  next
    case 2
    show ?thesis
    proof (cases us)
      case Nil
      with 2 assms have "n = []"
        by (cases n) auto
      then have "a = [] @ n @ a" by simp
      then show ?thesis
        unfolding js_includes_iff by blast
    next
      case (Cons u us')
      with 2 have "b = us' @ n @ y" by simp
      then show ?thesis
        unfolding js_includes_iff by blast
    qed
  qed
next
  assume "js_includes a n \<or> js_includes b n"
  then show "js_includes (a @ 0x0A # b) n"
    unfolding js_includes_iff
    by (metis append.assoc append_Cons)
qed

lemma js_includes_lines:
  assumes "0x0A \<notin> set n"
  shows "js_includes (concat (map (\<lambda>l. l @ [0x0A]) ls) @ t) n
         \<longleftrightarrow> (\<exists>l \<in> set ls. js_includes l n) \<or> js_includes t n"
  by (induction ls) (simp_all add: js_includes_line_split [OF assms] disj_assoc)

lemma js_includes_trimEnd_imp: "js_includes (trimEnd t) n \<Longrightarrow> js_includes t n"
proof -
  have "\<exists>w. t = trimEnd t @ w"
    unfolding trimEnd_def
    by (metis rev_append rev_rev_ident takeWhile_dropWhile_id)
  then show "js_includes (trimEnd t) n \<Longrightarrow> js_includes t n"
    unfolding js_includes_iff by (metis append.assoc)
qed

lemma trimEnd_keeps:
  assumes "js_includes t n" and "n \<noteq> []" and "\<not> white_space (last n)"
  shows "js_includes (trimEnd t) n"
proof -
  from assms(1) obtain a b where t: "t = a @ n @ b"
    unfolding js_includes_iff by blast
  from assms(2,3) have "dropWhile white_space (rev n @ rev a) = rev n @ rev a"
    by (cases n rule: rev_cases) simp_all
  then have "\<exists>w. trimEnd t = a @ n @ w"
    unfolding trimEnd_def t by (auto simp: dropWhile_append)
  then show ?thesis
    unfolding js_includes_iff by blast
qed

lemma indexOf_from_skip:
  "c \<notin> set a \<Longrightarrow>
   indexOf_from (a @ s) (c # ps) k = indexOf_from s (c # ps) (k + int (length a))"
  by (induction a arbitrary: k) (auto simp: algebra_simps)

lemma indexOf_from_mismatch:
  "x \<noteq> p \<Longrightarrow>
   indexOf_from (c # x # s) (c # p # ps) k = indexOf_from (x # s) (c # p # ps) (k + 1)"
  by simp

lemma indexOf_from_hit: "indexOf_from (n @ b) n k = k"
proof -
  have "startsWith (n @ b) n"
    by (auto simp: startsWith_iff)
  then show ?thesis
    by (cases "n @ b") simp_all
qed

lemma substitution_plain: "0x24 \<notin> set rep \<Longrightarrow> substitution m f r rep = rep"
  by (induction m f r rep rule: substitution.induct) auto

text \<open>
  Replacing a placeholder that follows the opening brace of the array: when no brace
  occurs in front of the array or among the lines already put in, the first occurrence of
  the placeholder is the one of the template, and a line without a dollar sign is put in
  as it is.
\<close>

lemma js_replace_slot:
  assumes "0x7B \<notin> set h" and "0x7B \<notin> set m" and "0x24 \<notin> set rep"
  shows "js_replace (h @ [0x7B, 0x0A] @ m @ (0x7B # 0x44 # ps) @ b) (0x7B # 0x44 # ps) rep
         = h @ [0x7B, 0x0A] @ m @ rep @ b"
proof -
  let ?ph = "0x7B # 0x44 # ps"
  let ?s = "h @ [0x7B, 0x0A] @ m @ ?ph @ b"
  have ne: "(0x0A :: code_unit) \<noteq> 0x44" "(0x0A :: code_unit) \<noteq> 0x7B"
    by simp_all
  have "indexOf ?s ?ph = indexOf_from (0x7B # 0x0A # m @ ?ph @ b) ?ph (int (length h))"
    using assms(1) by (simp add: indexOf_def indexOf_from_skip)
  also have "\<dots> = indexOf_from (0x0A # m @ ?ph @ b) ?ph (int (length h) + 1)"
    using ne(1) by (rule indexOf_from_mismatch)
  also have "\<dots> = indexOf_from (m @ ?ph @ b) ?ph (int (length h) + 1 + 1)"
    using ne(2) by (simp only: indexOf_from.simps startsWith.simps simp_thms if_False)
  also have "\<dots> = indexOf_from (?ph @ b) ?ph (int (length h) + 1 + 1 + int (length m))"
    using assms(2) by (rule indexOf_from_skip)
  also have "\<dots> = int (length h) + 1 + 1 + int (length m)"
    by (rule indexOf_from_hit)
  finally have "indexOf ?s ?ph = int (length (h @ [0x7B, 0x0A] @ m))"
    by simp
  moreover define n where "n = length (h @ [0x7B, 0x0A] @ m)"
  ultimately have p: "indexOf ?s ?ph = int n"
    by simp
  have s: "?s = (h @ [0x7B, 0x0A] @ m) @ ?ph @ b"
    by simp
  have "js_replace ?s ?ph rep = take n ?s @ rep @ drop (n + length ?ph) ?s"
    unfolding js_replace_def p using assms(3) by (simp add: Let_def substitution_plain)
  also have "take n ?s = h @ [0x7B, 0x0A] @ m"
    unfolding s n_def by simp
  also have "drop (n + length ?ph) ?s = b"
    unfolding s n_def by (simp only: drop_append drop_all) simp
  finally show ?thesis by simp
qed

lemma trimEnd_append: "trimEnd t \<noteq> [] \<Longrightarrow> trimEnd (s @ t) = s @ trimEnd t"
  by (auto simp: trimEnd_def dropWhile_append)

lemma placeholder_form: "placeholder i = 0x7B # 0x44 # tl (tl (placeholder i))"
  by (simp add: placeholder_def str_def)

lemma js_replace_placeholder:
  assumes "0x7B \<notin> set h" and "0x7B \<notin> set m" and "0x24 \<notin> set rep"
  shows "js_replace (h @ [0x7B, 0x0A] @ m @ placeholder i @ b) (placeholder i) rep
         = h @ [0x7B, 0x0A] @ m @ rep @ b"
  using js_replace_slot [OF assms, of "tl (tl (placeholder i))" b] placeholder_form [of i]
  by simp

lemma array_body_split:
  "array_body (done @ x # todo)
   = concat (map (\<lambda>d. [0x20, 0x20] @ d @ [0x2C, 0x0A]) done) @ [0x20, 0x20] @ x
     @ (if todo = [] then [0x0A] else [0x2C, 0x0A] @ array_body todo)"
  by (cases "todo = []") (simp_all add: array_body_def butlast_append)

text \<open>
  One replacement: the placeholder of an entry of the array becomes the line, when the
  entries in front of it hold no brace.
\<close>

lemma replace_slot_step:
  assumes "0x7B \<notin> set h" and "\<forall>d \<in> set done. 0x7B \<notin> set d" and "0x24 \<notin> set l"
  shows "js_replace (h @ [0x7B, 0x0A] @ array_body (done @ placeholder i # todo) @ e)
           (placeholder i) l
         = h @ [0x7B, 0x0A] @ array_body (done @ l # todo) @ e"
proof -
  let ?m = "concat (map (\<lambda>d. [0x20, 0x20] @ d @ [0x2C, 0x0A]) done) @ [0x20, 0x20]"
  let ?b = "(if todo = [] then [0x0A] else [0x2C, 0x0A] @ array_body todo) @ e"
  from assms(2) have m: "0x7B \<notin> set ?m"
    by auto
  have "js_replace (h @ [0x7B, 0x0A] @ ?m @ placeholder i @ ?b) (placeholder i) l
        = h @ [0x7B, 0x0A] @ ?m @ l @ ?b"
    using assms(1) m assms(3) by (rule js_replace_placeholder)
  then show ?thesis
    by (simp only: array_body_split append_assoc)
qed

text \<open>
  The eight replacements on a template whose array holds the eight placeholders put the
  eight lines in their places and leave the text around the array as it is.
\<close>

lemma fold_replace_slots:
  assumes "0x7B \<notin> set h"
    and "\<forall>l \<in> set [l0, l1, l2, l3, l4, l5, l6, l7].
           0x7B \<notin> set l \<and> 0x24 \<notin> set l"
  shows "fold (\<lambda>i code. js_replace code (placeholder i)
                           (line_at [l0, l1, l2, l3, l4, l5, l6, l7] i))
           [0..<ROWS]
           (h @ [0x7B, 0x0A]
            @ array_body [placeholder 0, placeholder 1, placeholder 2, placeholder 3,
                          placeholder 4, placeholder 5, placeholder 6, placeholder 7] @ e)
         = h @ [0x7B, 0x0A] @ array_body [l0, l1, l2, l3, l4, l5, l6, l7] @ e"
proof -
  have s0:
    "js_replace
       (h @ [0x7B, 0x0A]
        @ array_body [placeholder 0, placeholder 1, placeholder 2, placeholder 3,
                    placeholder 4, placeholder 5, placeholder 6, placeholder 7] @ e)
       (placeholder 0) l0
     = h @ [0x7B, 0x0A]
       @ array_body [l0, placeholder 1, placeholder 2, placeholder 3,
                    placeholder 4, placeholder 5, placeholder 6, placeholder 7] @ e"
    using replace_slot_step
        [of h "[]" l0 0
            "[placeholder 1, placeholder 2, placeholder 3, placeholder 4,
               placeholder 5, placeholder 6, placeholder 7]" e]
      assms
    by simp
  have s1:
    "js_replace
       (h @ [0x7B, 0x0A]
        @ array_body [l0, placeholder 1, placeholder 2, placeholder 3,
                    placeholder 4, placeholder 5, placeholder 6, placeholder 7] @ e)
       (placeholder 1) l1
     = h @ [0x7B, 0x0A]
       @ array_body [l0, l1, placeholder 2, placeholder 3,
                    placeholder 4, placeholder 5, placeholder 6, placeholder 7] @ e"
    using replace_slot_step
        [of h "[l0]" l1 1
            "[placeholder 2, placeholder 3, placeholder 4, placeholder 5,
               placeholder 6, placeholder 7]" e]
      assms
    by simp
  have s2:
    "js_replace
       (h @ [0x7B, 0x0A]
        @ array_body [l0, l1, placeholder 2, placeholder 3,
                    placeholder 4, placeholder 5, placeholder 6, placeholder 7] @ e)
       (placeholder 2) l2
     = h @ [0x7B, 0x0A]
       @ array_body [l0, l1, l2, placeholder 3,
                    placeholder 4, placeholder 5, placeholder 6, placeholder 7] @ e"
    using replace_slot_step
        [of h "[l0, l1]" l2 2
            "[placeholder 3, placeholder 4, placeholder 5, placeholder 6,
               placeholder 7]" e]
      assms
    by simp
  have s3:
    "js_replace
       (h @ [0x7B, 0x0A]
        @ array_body [l0, l1, l2, placeholder 3,
                    placeholder 4, placeholder 5, placeholder 6, placeholder 7] @ e)
       (placeholder 3) l3
     = h @ [0x7B, 0x0A]
       @ array_body [l0, l1, l2, l3,
                    placeholder 4, placeholder 5, placeholder 6, placeholder 7] @ e"
    using replace_slot_step
        [of h "[l0, l1, l2]" l3 3
            "[placeholder 4, placeholder 5, placeholder 6, placeholder 7]" e]
      assms
    by simp
  have s4:
    "js_replace
       (h @ [0x7B, 0x0A]
        @ array_body [l0, l1, l2, l3,
                    placeholder 4, placeholder 5, placeholder 6, placeholder 7] @ e)
       (placeholder 4) l4
     = h @ [0x7B, 0x0A]
       @ array_body [l0, l1, l2, l3,
                    l4, placeholder 5, placeholder 6, placeholder 7] @ e"
    using replace_slot_step
        [of h "[l0, l1, l2, l3]" l4 4
            "[placeholder 5, placeholder 6, placeholder 7]" e]
      assms
    by simp
  have s5:
    "js_replace
       (h @ [0x7B, 0x0A]
        @ array_body [l0, l1, l2, l3,
                    l4, placeholder 5, placeholder 6, placeholder 7] @ e)
       (placeholder 5) l5
     = h @ [0x7B, 0x0A]
       @ array_body [l0, l1, l2, l3,
                    l4, l5, placeholder 6, placeholder 7] @ e"
    using replace_slot_step
        [of h "[l0, l1, l2, l3, l4]" l5 5
            "[placeholder 6, placeholder 7]" e]
      assms
    by simp
  have s6:
    "js_replace
       (h @ [0x7B, 0x0A]
        @ array_body [l0, l1, l2, l3,
                    l4, l5, placeholder 6, placeholder 7] @ e)
       (placeholder 6) l6
     = h @ [0x7B, 0x0A]
       @ array_body [l0, l1, l2, l3,
                    l4, l5, l6, placeholder 7] @ e"
    using replace_slot_step
        [of h "[l0, l1, l2, l3, l4, l5]" l6 6
            "[placeholder 7]" e]
      assms
    by simp
  have s7:
    "js_replace
       (h @ [0x7B, 0x0A]
        @ array_body [l0, l1, l2, l3,
                    l4, l5, l6, placeholder 7] @ e)
       (placeholder 7) l7
     = h @ [0x7B, 0x0A]
       @ array_body [l0, l1, l2, l3,
                    l4, l5, l6, l7] @ e"
    using replace_slot_step
        [of h "[l0, l1, l2, l3, l4, l5, l6]" l7 7
            "[]" e]
      assms
    by simp
  show ?thesis
    by (simp add: ROWS_def upt_0_8 line_at_def
        s0 [simplified] s1 [simplified] s2 [simplified] s3 [simplified]
        s4 [simplified] s5 [simplified] s6 [simplified] s7 [simplified])
qed

section \<open>Shape of the generated text\<close>

lemma template_append: "template (xs @ ys) = template xs @ template ys"
  by (simp add: template_def)

lemma template_slots:
  "template (''byte customChar[] = {'' # slot_lines)
   = str ''byte customChar[] = '' @ [0x7B, 0x0A]
     @ array_body [placeholder 0, placeholder 1, placeholder 2, placeholder 3,
                     placeholder 4, placeholder 5, placeholder 6, placeholder 7]"
  by (simp add: template_def slot_lines_def placeholder_def toString_radix_def
      nat_to_radix.simps digit_char_def str_def array_body_def)

lemma trimEnd_nonempty: "c \<in> set t \<Longrightarrow> \<not> white_space c \<Longrightarrow> trimEnd t \<noteq> []"
  by (auto simp: trimEnd_def)

text \<open>
  A template made of a header without braces, the line that opens the array, the eight
  placeholder lines and a footer is filled to: the header, the opening line, the eight
  literals (indented by two spaces, separated by a comma and a line feed), and the footer
  without the white space at its end.
\<close>

lemma fill_template_shape:
  assumes ls: "ls = hdr @ ''byte customChar[] = {'' # slot_lines @ ftr"
    and hdr: "0x7B \<notin> set (template hdr)"
    and ftr: "0x7D \<in> set (template ftr)"
    and lines: "\<forall>l \<in> set [l0, l1, l2, l3, l4, l5, l6, l7].
                  0x7B \<notin> set l \<and> 0x24 \<notin> set l"
  shows "fill_template (template ls) [l0, l1, l2, l3, l4, l5, l6, l7]
         = (template hdr @ str ''byte customChar[] = '') @ [0x7B, 0x0A]
           @ array_body [l0, l1, l2, l3, l4, l5, l6, l7] @ trimEnd (template ftr)"
proof -
  let ?h = "template hdr @ str ''byte customChar[] = ''"
  have h: "0x7B \<notin> set ?h"
    using hdr by (simp add: str_def)
  have "template ls
        = template hdr @ template (''byte customChar[] = {'' # slot_lines) @ template ftr"
    unfolding ls by (simp add: template_def)
  then have t: "template ls
        = ?h @ [0x7B, 0x0A]
          @ array_body [placeholder 0, placeholder 1, placeholder 2, placeholder 3,
                     placeholder 4, placeholder 5, placeholder 6, placeholder 7]
          @ template ftr"
    by (simp only: template_slots append_assoc)
  have e: "trimEnd (template ftr) \<noteq> []"
    using ftr by (rule trimEnd_nonempty) (simp add: white_space_def)
  have "fold (\<lambda>i code. js_replace code (placeholder i)
                          (line_at [l0, l1, l2, l3, l4, l5, l6, l7] i))
          [0..<ROWS] (template ls)
        = ?h @ [0x7B, 0x0A] @ array_body [l0, l1, l2, l3, l4, l5, l6, l7] @ template ftr"
    unfolding t using h lines by (rule fold_replace_slots)
  then have "fill_template (template ls) [l0, l1, l2, l3, l4, l5, l6, l7]
        = trimEnd ((?h @ [0x7B, 0x0A] @ array_body [l0, l1, l2, l3, l4, l5, l6, l7])
            @ template ftr)"
    by (simp add: fill_template_def)
  also have "\<dots> = (?h @ [0x7B, 0x0A] @ array_body [l0, l1, l2, l3, l4, l5, l6, l7])
                   @ trimEnd (template ftr)"
    using e by (rule trimEnd_append)
  finally show ?thesis
    by simp
qed

section \<open>The rendered literals\<close>

lemma replicate_numeral: "replicate (numeral k) x = x # replicate (pred_numeral k) x"
  by (simp add: numeral_eq_Suc)

lemma binary_literal:
  assumes "0 \<le> v" and "v \<le> 31"
  shows "0x7B \<notin> set (str ''B'' @ padStart0 (toString_radix 2 v) COLS)
   \<and> 0x24 \<notin> set (str ''B'' @ padStart0 (toString_radix 2 v) COLS)
   \<and> map mask (str ''B'' @ padStart0 (toString_radix 2 v) COLS) = replicate 6 0x30"
  using row_value_cases [OF assms]
  by (elim insertE emptyE;
      simp add: padStart0_def toString_radix_def nat_to_radix.simps digit_char_def str_def
        COLS_def mask_def replicate_numeral)

lemma hex_literal:
  assumes "0 \<le> v" and "v \<le> 31"
  shows "0x7B \<notin> set (str ''0x'' @ padStart0 (toUpperCase (toString_radix 16 (clampRowValue (num v)))) 2)
   \<and> 0x24 \<notin> set (str ''0x'' @ padStart0 (toUpperCase (toString_radix 16 (clampRowValue (num v)))) 2)
   \<and> map mask (str ''0x'' @ padStart0 (toUpperCase (toString_radix 16 (clampRowValue (num v)))) 2)
       = replicate 4 0x30"
  using row_value_cases [OF assms]
  by (elim insertE emptyE;
      simp add: padStart0_def toString_radix_def nat_to_radix.simps digit_char_def str_def
        toUpperCase_def toUpperCase_unit_def clampRowValue_num mask_def replicate_numeral)

lemma code_lines_valid:
  assumes "valid_rows rs"
  shows "length (code_lines rs dt) = 8 \<and> (\<forall>l \<in> set (code_lines rs dt). literal_ok dt l)"
proof -
  from assms have len: "length rs = 8" and rng: "\<forall>v \<in> set rs. 0 \<le> v \<and> v \<le> 31"
    by (simp_all add: valid_rows_def ROWS_def list_all_iff)
  show ?thesis
  proof (cases dt)
    case Bin
    with len rng show ?thesis
      using binary_literal by (auto simp: code_lines_def rowsToBinaryStrings_def literal_ok_def)
  next
    case Hex
    with len rng show ?thesis
      using hex_literal by (auto simp: code_lines_def rowsToHexStrings_def literal_ok_def)
  qed
qed

lemma list_of_length_8:
  assumes "length xs = 8"
  obtains x0 x1 x2 x3 x4 x5 x6 x7 where "xs = [x0, x1, x2, x3, x4, x5, x6, x7]"
  using assms by (auto simp: length_Suc_conv eval_nat_numeral)

text \<open>The generated text for a valid row vector.\<close>

lemma fill_template_code_lines:
  assumes ls: "ls = hdr @ ''byte customChar[] = {'' # slot_lines @ ftr"
    and hdr: "0x7B \<notin> set (template hdr)"
    and ftr: "0x7D \<in> set (template ftr)"
    and rs: "valid_rows rs"
  obtains l0 l1 l2 l3 l4 l5 l6 l7 where
    "code_lines rs dt = [l0, l1, l2, l3, l4, l5, l6, l7]"
    "\<forall>l \<in> set [l0, l1, l2, l3, l4, l5, l6, l7]. literal_ok dt l"
    "fill_template (template ls) (code_lines rs dt)
     = (template hdr @ str ''byte customChar[] = '') @ [0x7B, 0x0A]
       @ array_body [l0, l1, l2, l3, l4, l5, l6, l7] @ trimEnd (template ftr)"
proof -
  from code_lines_valid [OF rs, of dt]
  have len: "length (code_lines rs dt) = 8"
    and ok: "\<forall>l \<in> set (code_lines rs dt). literal_ok dt l"
    by simp_all
  from len obtain l0 l1 l2 l3 l4 l5 l6 l7 where c: "code_lines rs dt = [l0, l1, l2, l3, l4, l5, l6, l7]"
    by (rule list_of_length_8)
  from ok have plain: "\<forall>l \<in> set [l0, l1, l2, l3, l4, l5, l6, l7]. 0x7B \<notin> set l \<and> 0x24 \<notin> set l"
    unfolding c by (simp add: literal_ok_def)
  have "fill_template (template ls) (code_lines rs dt)
           = (template hdr @ str ''byte customChar[] = '') @ [0x7B, 0x0A]
             @ array_body [l0, l1, l2, l3, l4, l5, l6, l7] @ trimEnd (template ftr)"
    unfolding c using ls hdr ftr plain by (rule fill_template_shape)
  with c ok that show ?thesis
    by simp
qed

section \<open>What the generated text contains\<close>

lemma js_includes_template:
  assumes "l \<in> set ls" and "js_includes (str l) n"
  shows "js_includes (template ls) n"
proof -
  from assms(1) obtain xs ys where "ls = xs @ l # ys"
    by (auto simp: in_set_conv_decomp)
  then have "template ls = template xs @ str l @ [0x0A] @ template ys"
    by (simp add: template_def)
  with assms(2) show ?thesis
    by (simp add: js_includes_append1 js_includes_append2)
qed

text \<open>A text of a line of the header or of the footer of the template is in the result.\<close>

lemma fill_template_includes:
  assumes ls: "ls = hdr @ ''byte customChar[] = {'' # slot_lines @ ftr"
    and hdr: "0x7B \<notin> set (template hdr)"
    and ftr: "0x7D \<in> set (template ftr)"
    and rs: "valid_rows rs"
    and l: "l \<in> set hdr \<or> l \<in> set ftr"
    and n: "js_includes (str l) n" "n \<noteq> []" "\<not> white_space (last n)"
  shows "js_includes (fill_template (template ls) (code_lines rs dt)) n"
proof -
  from ls hdr ftr rs obtain l0 l1 l2 l3 l4 l5 l6 l7 where
    f: "fill_template (template ls) (code_lines rs dt)
        = (template hdr @ str ''byte customChar[] = '') @ [0x7B, 0x0A]
          @ array_body [l0, l1, l2, l3, l4, l5, l6, l7] @ trimEnd (template ftr)"
    by (rule fill_template_code_lines)
  from l show ?thesis
  proof
    assume "l \<in> set hdr"
    then have "js_includes (template hdr) n"
      using n(1) by (rule js_includes_template)
    then have "js_includes (template hdr @ (str ''byte customChar[] = '' @ [0x7B, 0x0A]
          @ array_body [l0, l1, l2, l3, l4, l5, l6, l7] @ trimEnd (template ftr))) n"
      by (rule js_includes_append1)
    then show ?thesis
      by (simp add: f)
  next
    assume "l \<in> set ftr"
    then have "js_includes (template ftr) n"
      using n(1) by (rule js_includes_template)
    then have "js_includes (trimEnd (template ftr)) n"
      using n(2,3) by (rule trimEnd_keeps)
    then have "js_includes (((template hdr @ str ''byte customChar[] = '') @ [0x7B, 0x0A]
          @ array_body [l0, l1, l2, l3, l4, l5, l6, l7]) @ trimEnd (template ftr)) n"
      by (rule js_includes_append2)
    then show ?thesis
      by (simp add: f)
  qed
qed

lemma mask_fixed: "mask 0x0A = 0x0A" "mask 0x20 = 0x20" "mask 0x2C = 0x2C"
  by (simp_all add: mask_def)

lemma mask_line_feed: "0x0A \<in> set (map mask n) \<longleftrightarrow> 0x0A \<in> set n"
  by (induction n) (auto simp: mask_def)

lemma map_mask_template:
  "map mask (template ls) = concat (map (\<lambda>l. l @ [0x0A]) (map (\<lambda>l. map mask (str l)) ls))"
  by (simp add: template_def map_concat comp_def mask_fixed)

text \<open>
  A text without a line feed that occurs in no line of the template and in no line of a
  literal, all under \<open>mask\<close>, is not in the result.
\<close>

lemma fill_template_excludes:
  assumes ls: "ls = hdr @ ''byte customChar[] = {'' # slot_lines @ ftr"
    and hdr: "0x7B \<notin> set (template hdr)"
    and ftr: "0x7D \<in> set (template ftr)"
    and rs: "valid_rows rs"
    and nl: "0x0A \<notin> set n"
    and lines: "\<forall>l \<in> set ls. \<not> js_includes (map mask (str l)) (map mask n)"
    and lit4: "\<not> js_includes ([0x20, 0x20] @ replicate 4 0x30 @ [0x2C]) (map mask n)"
    and lit6: "\<not> js_includes ([0x20, 0x20] @ replicate 6 0x30 @ [0x2C]) (map mask n)"
  shows "\<not> js_includes (fill_template (template ls) (code_lines rs dt)) n"
proof
  let ?n = "map mask n"
  let ?k = "if dt = Hex then 4 else 6 :: nat"
  let ?lit = "[0x20, 0x20] @ replicate ?k 0x30 @ [0x2C]"
  assume "js_includes (fill_template (template ls) (code_lines rs dt)) n"
  then have inc: "js_includes (map mask (fill_template (template ls) (code_lines rs dt))) ?n"
    by (rule js_includes_map)
  from nl have nl': "0x0A \<notin> set ?n"
    by (simp only: mask_line_feed not_False_eq_True)
  from ls hdr ftr rs obtain l0 l1 l2 l3 l4 l5 l6 l7 where
    ok: "\<forall>l \<in> set [l0, l1, l2, l3, l4, l5, l6, l7]. literal_ok dt l"
    and f: "fill_template (template ls) (code_lines rs dt)
        = (template hdr @ str ''byte customChar[] = '') @ [0x7B, 0x0A]
          @ array_body [l0, l1, l2, l3, l4, l5, l6, l7] @ trimEnd (template ftr)"
    by (rule fill_template_code_lines [of ls hdr ftr rs dt])
  from ok have m: "\<forall>l \<in> set [l0, l1, l2, l3, l4, l5, l6, l7]. map mask l = replicate ?k 0x30"
    by (simp add: literal_ok_def)
  have lit: "\<not> js_includes ?lit ?n"
    using lit4 lit6 by simp
  define LL where "LL = map (\<lambda>l. map mask (str l)) hdr
             @ [map mask (str ''byte customChar[] = {'')]
             @ replicate 7 ?lit @ [[0x20, 0x20] @ replicate ?k 0x30]"
  have "map mask (fill_template (template ls) (code_lines rs dt))
        = concat (map (\<lambda>l. l @ [0x0A]) LL) @ map mask (trimEnd (template ftr))"
    unfolding f LL_def using m
    by (simp add: map_mask_template mask_fixed str_def replicate_numeral array_body_def)
  with inc have "js_includes (concat (map (\<lambda>l. l @ [0x0A]) LL)
                   @ map mask (trimEnd (template ftr))) ?n"
    by (simp only:)
  then have "(\<exists>l \<in> set LL. js_includes l ?n)
             \<or> js_includes (map mask (trimEnd (template ftr))) ?n"
    by (simp only: js_includes_lines [OF nl'])
  then consider l where "l \<in> set hdr" "js_includes (map mask (str l)) ?n"
    | "js_includes (map mask (str ''byte customChar[] = {'')) ?n"
    | "js_includes ?lit ?n"
    | "js_includes ([0x20, 0x20] @ replicate ?k 0x30) ?n"
    | "js_includes (map mask (trimEnd (template ftr))) ?n"
    unfolding LL_def by auto
  then show False
  proof cases
    case 1
    with lines ls show ?thesis by simp
  next
    case 2
    with lines ls show ?thesis by simp
  next
    case 3
    with lit show ?thesis by simp
  next
    case 4
    then have "js_includes (([0x20, 0x20] @ replicate ?k 0x30) @ [0x2C]) ?n"
      by (rule js_includes_append1)
    with lit show ?thesis by simp
  next
    case 5
    obtain w where "template ftr = trimEnd (template ftr) @ w"
      unfolding trimEnd_def by (metis rev_append rev_rev_ident takeWhile_dropWhile_id)
    then have "map mask (template ftr) = map mask (trimEnd (template ftr)) @ map mask w"
      by (metis map_append)
    with 5 have "js_includes (map mask (template ftr)) ?n"
      by (simp add: js_includes_append1)
    then have "(\<exists>l \<in> set (map (\<lambda>l. map mask (str l)) ftr). js_includes l ?n)
               \<or> js_includes [] ?n"
      using js_includes_lines [OF nl', of "map (\<lambda>l. map mask (str l)) ftr" "[]"]
      by (simp only: map_mask_template append_Nil2)
    moreover have "\<exists>l \<in> set ftr. js_includes (map mask (str l)) ?n" if "js_includes [] ?n"
    proof -
      from that have "?n = []"
        by (simp add: js_includes_iff)
      moreover from ftr obtain l where "l \<in> set ftr"
        by (cases ftr) (auto simp: template_def)
      ultimately show ?thesis
        using js_includes_Nil by auto
    qed
    ultimately have "\<exists>l \<in> set ftr. js_includes (map mask (str l)) ?n"
      by auto
    with lines ls show ?thesis by auto
  qed
qed

lemma buildArduinoCode_unfold:
  "buildArduinoCode_hd44780 rs Parallel dt
   = fill_template (template templateParallel_hd44780_lines) (code_lines rs dt)"
  "buildArduinoCode_hd44780 rs I2c dt
   = fill_template (template templateI2c_hd44780_lines) (code_lines rs dt)"
  "buildArduinoCode_LiquidCrystal rs Parallel dt
   = fill_template (template templateParallel_LiquidCrystal_lines) (code_lines rs dt)"
  "buildArduinoCode_LiquidCrystal rs I2c dt
   = fill_template (template templateI2c_LiquidCrystal_lines) (code_lines rs dt)"
  by (simp_all add: buildArduinoCode_hd44780_def buildArduinoCode_LiquidCrystal_def
      templateParallel_hd44780_def templateI2c_hd44780_def templateParallel_LiquidCrystal_def
      templateI2c_LiquidCrystal_def)

text \<open>
  Each of the four templates is a header without braces, the line that opens the array, the
  eight placeholder lines and a footer.
\<close>

lemma split_Parallel_hd44780:
  "templateParallel_hd44780_lines
   = take 13 templateParallel_hd44780_lines
     @ ''byte customChar[] = {'' # slot_lines
     @ drop 22 templateParallel_hd44780_lines"
  "0x7B \<notin> set (template (take 13 templateParallel_hd44780_lines))"
  "0x7D \<in> set (template (drop 22 templateParallel_hd44780_lines))"
  by (simp_all add: templateParallel_hd44780_lines_def slot_lines_def template_def str_def)

lemma split_I2c_hd44780:
  "templateI2c_hd44780_lines
   = take 7 templateI2c_hd44780_lines
     @ ''byte customChar[] = {'' # slot_lines
     @ drop 16 templateI2c_hd44780_lines"
  "0x7B \<notin> set (template (take 7 templateI2c_hd44780_lines))"
  "0x7D \<in> set (template (drop 16 templateI2c_hd44780_lines))"
  by (simp_all add: templateI2c_hd44780_lines_def slot_lines_def template_def str_def)

lemma split_Parallel_LiquidCrystal:
  "templateParallel_LiquidCrystal_lines
   = take 4 templateParallel_LiquidCrystal_lines
     @ ''byte customChar[] = {'' # slot_lines
     @ drop 13 templateParallel_LiquidCrystal_lines"
  "0x7B \<notin> set (template (take 4 templateParallel_LiquidCrystal_lines))"
  "0x7D \<in> set (template (drop 13 templateParallel_LiquidCrystal_lines))"
  by (simp_all add: templateParallel_LiquidCrystal_lines_def slot_lines_def template_def str_def)

lemma split_I2c_LiquidCrystal:
  "templateI2c_LiquidCrystal_lines
   = take 6 templateI2c_LiquidCrystal_lines
     @ ''byte customChar[] = {'' # slot_lines
     @ drop 15 templateI2c_LiquidCrystal_lines"
  "0x7B \<notin> set (template (take 6 templateI2c_LiquidCrystal_lines))"
  "0x7D \<in> set (template (drop 15 templateI2c_LiquidCrystal_lines))"
  by (simp_all add: templateI2c_LiquidCrystal_lines_def slot_lines_def template_def str_def)

text \<open>
  The hd44780 text for the parallel wiring: the six pin-number constants, the display
  declared from them, and no \<^verbatim>\<open>hd44780_I2Cexp\<close>.
\<close>

lemma Parallel_hd44780_text:
  assumes "valid_rows rs"
  shows "js_includes (buildArduinoCode_hd44780 rs Parallel dt)
           (str ''const int LCD_RS = 12;'')"
    and "js_includes (buildArduinoCode_hd44780 rs Parallel dt)
           (str ''const int LCD_EN = 11;'')"
    and "js_includes (buildArduinoCode_hd44780 rs Parallel dt)
           (str ''const int LCD_D4 = 5;'')"
    and "js_includes (buildArduinoCode_hd44780 rs Parallel dt)
           (str ''const int LCD_D5 = 4;'')"
    and "js_includes (buildArduinoCode_hd44780 rs Parallel dt)
           (str ''const int LCD_D6 = 3;'')"
    and "js_includes (buildArduinoCode_hd44780 rs Parallel dt)
           (str ''const int LCD_D7 = 2;'')"
    and "js_includes (buildArduinoCode_hd44780 rs Parallel dt)
           (str ''hd44780_pinIO lcd(LCD_RS, LCD_EN, LCD_D4, LCD_D5, LCD_D6, LCD_D7);'')"
    and "\<not> js_includes (buildArduinoCode_hd44780 rs Parallel dt)
           (str ''hd44780_I2Cexp'')"
proof -
  show "js_includes (buildArduinoCode_hd44780 rs Parallel dt)
          (str ''const int LCD_RS = 12;'')"
    unfolding buildArduinoCode_unfold
    by (rule fill_template_includes [OF split_Parallel_hd44780 assms,
            of "''const int LCD_RS = 12;''"])
      (simp_all add: templateParallel_hd44780_lines_def js_includes_def indexOf_def str_def
        white_space_def)
  show "js_includes (buildArduinoCode_hd44780 rs Parallel dt)
          (str ''const int LCD_EN = 11;'')"
    unfolding buildArduinoCode_unfold
    by (rule fill_template_includes [OF split_Parallel_hd44780 assms,
            of "''const int LCD_EN = 11;''"])
      (simp_all add: templateParallel_hd44780_lines_def js_includes_def indexOf_def str_def
        white_space_def)
  show "js_includes (buildArduinoCode_hd44780 rs Parallel dt)
          (str ''const int LCD_D4 = 5;'')"
    unfolding buildArduinoCode_unfold
    by (rule fill_template_includes [OF split_Parallel_hd44780 assms,
            of "''const int LCD_D4 = 5;''"])
      (simp_all add: templateParallel_hd44780_lines_def js_includes_def indexOf_def str_def
        white_space_def)
  show "js_includes (buildArduinoCode_hd44780 rs Parallel dt)
          (str ''const int LCD_D5 = 4;'')"
    unfolding buildArduinoCode_unfold
    by (rule fill_template_includes [OF split_Parallel_hd44780 assms,
            of "''const int LCD_D5 = 4;''"])
      (simp_all add: templateParallel_hd44780_lines_def js_includes_def indexOf_def str_def
        white_space_def)
  show "js_includes (buildArduinoCode_hd44780 rs Parallel dt)
          (str ''const int LCD_D6 = 3;'')"
    unfolding buildArduinoCode_unfold
    by (rule fill_template_includes [OF split_Parallel_hd44780 assms,
            of "''const int LCD_D6 = 3;''"])
      (simp_all add: templateParallel_hd44780_lines_def js_includes_def indexOf_def str_def
        white_space_def)
  show "js_includes (buildArduinoCode_hd44780 rs Parallel dt)
          (str ''const int LCD_D7 = 2;'')"
    unfolding buildArduinoCode_unfold
    by (rule fill_template_includes [OF split_Parallel_hd44780 assms,
            of "''const int LCD_D7 = 2;''"])
      (simp_all add: templateParallel_hd44780_lines_def js_includes_def indexOf_def str_def
        white_space_def)
  show "js_includes (buildArduinoCode_hd44780 rs Parallel dt)
          (str ''hd44780_pinIO lcd(LCD_RS, LCD_EN, LCD_D4, LCD_D5, LCD_D6, LCD_D7);'')"
    unfolding buildArduinoCode_unfold
    by (rule fill_template_includes [OF split_Parallel_hd44780 assms,
            of "''hd44780_pinIO lcd(LCD_RS, LCD_EN, LCD_D4, LCD_D5, LCD_D6, LCD_D7);''"])
      (simp_all add: templateParallel_hd44780_lines_def js_includes_def indexOf_def str_def
        white_space_def)
  show "\<not> js_includes (buildArduinoCode_hd44780 rs Parallel dt)
          (str ''hd44780_I2Cexp'')"
    unfolding buildArduinoCode_unfold
    by (rule fill_template_excludes [OF split_Parallel_hd44780 assms])
      (simp_all add: templateParallel_hd44780_lines_def js_includes_def indexOf_def str_def
        mask_def replicate_numeral)
qed

text \<open>
  The hd44780 text for the i2c wiring: the auto-detecting display, no constant, no pin name
  and no \<^verbatim>\<open>hd44780_pinIO\<close>.
\<close>

lemma I2c_hd44780_text:
  assumes "valid_rows rs"
  shows "js_includes (buildArduinoCode_hd44780 rs I2c dt)
           (str ''hd44780_I2Cexp lcd;'')"
    and "\<not> js_includes (buildArduinoCode_hd44780 rs I2c dt)
           (str ''const int'')"
    and "\<not> js_includes (buildArduinoCode_hd44780 rs I2c dt)
           (str ''LCD_'')"
    and "\<not> js_includes (buildArduinoCode_hd44780 rs I2c dt)
           (str ''hd44780_pinIO'')"
proof -
  show "js_includes (buildArduinoCode_hd44780 rs I2c dt)
          (str ''hd44780_I2Cexp lcd;'')"
    unfolding buildArduinoCode_unfold
    by (rule fill_template_includes [OF split_I2c_hd44780 assms,
            of "''hd44780_I2Cexp lcd;''"])
      (simp_all add: templateI2c_hd44780_lines_def js_includes_def indexOf_def str_def
        white_space_def)
  show "\<not> js_includes (buildArduinoCode_hd44780 rs I2c dt)
          (str ''const int'')"
    unfolding buildArduinoCode_unfold
    by (rule fill_template_excludes [OF split_I2c_hd44780 assms])
      (simp_all add: templateI2c_hd44780_lines_def js_includes_def indexOf_def str_def
        mask_def replicate_numeral)
  show "\<not> js_includes (buildArduinoCode_hd44780 rs I2c dt)
          (str ''LCD_'')"
    unfolding buildArduinoCode_unfold
    by (rule fill_template_excludes [OF split_I2c_hd44780 assms])
      (simp_all add: templateI2c_hd44780_lines_def js_includes_def indexOf_def str_def
        mask_def replicate_numeral)
  show "\<not> js_includes (buildArduinoCode_hd44780 rs I2c dt)
          (str ''hd44780_pinIO'')"
    unfolding buildArduinoCode_unfold
    by (rule fill_template_excludes [OF split_I2c_hd44780 assms])
      (simp_all add: templateI2c_hd44780_lines_def js_includes_def indexOf_def str_def
        mask_def replicate_numeral)
qed

text \<open>
  The LiquidCrystal text for the parallel wiring: the display on the six pin numbers,
  initialised with its size, and nothing of the i2c variant.
\<close>

lemma Parallel_LiquidCrystal_text:
  assumes "valid_rows rs"
  shows "js_includes (buildArduinoCode_LiquidCrystal rs Parallel dt)
           (str ''LiquidCrystal lcd(12, 11, 5, 4, 3, 2);'')"
    and "js_includes (buildArduinoCode_LiquidCrystal rs Parallel dt)
           (str ''lcd.begin(16, 2);'')"
    and "\<not> js_includes (buildArduinoCode_LiquidCrystal rs Parallel dt)
           (str ''lcd.begin();'')"
    and "\<not> js_includes (buildArduinoCode_LiquidCrystal rs Parallel dt)
           (str ''LiquidCrystal_I2C'')"
proof -
  show "js_includes (buildArduinoCode_LiquidCrystal rs Parallel dt)
          (str ''LiquidCrystal lcd(12, 11, 5, 4, 3, 2);'')"
    unfolding buildArduinoCode_unfold
    by (rule fill_template_includes [OF split_Parallel_LiquidCrystal assms,
            of "''LiquidCrystal lcd(12, 11, 5, 4, 3, 2); // RS, E, D4, D5, D6, D7''"])
      (simp_all add: templateParallel_LiquidCrystal_lines_def js_includes_def indexOf_def str_def
        white_space_def)
  show "js_includes (buildArduinoCode_LiquidCrystal rs Parallel dt)
          (str ''lcd.begin(16, 2);'')"
    unfolding buildArduinoCode_unfold
    by (rule fill_template_includes [OF split_Parallel_LiquidCrystal assms,
            of "''  lcd.begin(16, 2);''"])
      (simp_all add: templateParallel_LiquidCrystal_lines_def js_includes_def indexOf_def str_def
        white_space_def)
  show "\<not> js_includes (buildArduinoCode_LiquidCrystal rs Parallel dt)
          (str ''lcd.begin();'')"
    unfolding buildArduinoCode_unfold
    by (rule fill_template_excludes [OF split_Parallel_LiquidCrystal assms])
      (simp_all add: templateParallel_LiquidCrystal_lines_def js_includes_def indexOf_def str_def
        mask_def replicate_numeral)
  show "\<not> js_includes (buildArduinoCode_LiquidCrystal rs Parallel dt)
          (str ''LiquidCrystal_I2C'')"
    unfolding buildArduinoCode_unfold
    by (rule fill_template_excludes [OF split_Parallel_LiquidCrystal assms])
      (simp_all add: templateParallel_LiquidCrystal_lines_def js_includes_def indexOf_def str_def
        mask_def replicate_numeral)
qed

text \<open>
  The LiquidCrystal text for the i2c wiring: the display on the bus, initialised without
  arguments, and no pin numbers.
\<close>

lemma I2c_LiquidCrystal_text:
  assumes "valid_rows rs"
  shows "js_includes (buildArduinoCode_LiquidCrystal rs I2c dt)
           (str ''LiquidCrystal_I2C lcd(0x3F, 16, 2);'')"
    and "js_includes (buildArduinoCode_LiquidCrystal rs I2c dt)
           (str ''lcd.begin();'')"
    and "\<not> js_includes (buildArduinoCode_LiquidCrystal rs I2c dt)
           (str ''lcd(12, 11, 5, 4, 3, 2)'')"
    and "\<not> js_includes (buildArduinoCode_LiquidCrystal rs I2c dt)
           (str ''lcd.begin(16, 2);'')"
proof -
  show "js_includes (buildArduinoCode_LiquidCrystal rs I2c dt)
          (str ''LiquidCrystal_I2C lcd(0x3F, 16, 2);'')"
    unfolding buildArduinoCode_unfold
    by (rule fill_template_includes [OF split_I2c_LiquidCrystal assms,
            of "''LiquidCrystal_I2C lcd(0x3F, 16, 2);''"])
      (simp_all add: templateI2c_LiquidCrystal_lines_def js_includes_def indexOf_def str_def
        white_space_def)
  show "js_includes (buildArduinoCode_LiquidCrystal rs I2c dt)
          (str ''lcd.begin();'')"
    unfolding buildArduinoCode_unfold
    by (rule fill_template_includes [OF split_I2c_LiquidCrystal assms,
            of "''  lcd.begin();''"])
      (simp_all add: templateI2c_LiquidCrystal_lines_def js_includes_def indexOf_def str_def
        white_space_def)
  show "\<not> js_includes (buildArduinoCode_LiquidCrystal rs I2c dt)
          (str ''lcd(12, 11, 5, 4, 3, 2)'')"
    unfolding buildArduinoCode_unfold
    by (rule fill_template_excludes [OF split_I2c_LiquidCrystal assms])
      (simp_all add: templateI2c_LiquidCrystal_lines_def js_includes_def indexOf_def str_def
        mask_def replicate_numeral)
  show "\<not> js_includes (buildArduinoCode_LiquidCrystal rs I2c dt)
          (str ''lcd.begin(16, 2);'')"
    unfolding buildArduinoCode_unfold
    by (rule fill_template_excludes [OF split_I2c_LiquidCrystal assms])
      (simp_all add: templateI2c_LiquidCrystal_lines_def js_includes_def indexOf_def str_def
        mask_def replicate_numeral)
qed

text \<open>
  C8. For every valid row vector and both literal styles. With the hd44780 templates, the
  text generated for the parallel wiring holds the six pin-number constants \<^verbatim>\<open>LCD_RS\<close>,
  \<^verbatim>\<open>LCD_EN\<close>, \<^verbatim>\<open>LCD_D4\<close> to \<^verbatim>\<open>LCD_D7\<close> and declares the display from them
  (\<^verbatim>\<open>hd44780_pinIO\<close>), while the text for the i2c wiring has no \<^verbatim>\<open>const int\<close> and no \<^verbatim>\<open>LCD_\<close>
  name and declares the auto-detecting \<^verbatim>\<open>hd44780_I2Cexp lcd;\<close>. With the LiquidCrystal
  templates, the parallel text passes the six pin numbers to the display and initialises
  it with \<^verbatim>\<open>lcd.begin(16, 2);\<close>, while the i2c text has no pin numbers and initialises the
  display with \<^verbatim>\<open>lcd.begin();\<close>.
\<close>

theorem firmware_template_shape:
  assumes "valid_rows rs"
  shows "js_includes (buildArduinoCode_hd44780 rs Parallel dt)
         (str ''const int LCD_RS = 12;'')
   \<and> js_includes (buildArduinoCode_hd44780 rs Parallel dt)
         (str ''const int LCD_EN = 11;'')
   \<and> js_includes (buildArduinoCode_hd44780 rs Parallel dt)
         (str ''const int LCD_D4 = 5;'')
   \<and> js_includes (buildArduinoCode_hd44780 rs Parallel dt)
         (str ''const int LCD_D5 = 4;'')
   \<and> js_includes (buildArduinoCode_hd44780 rs Parallel dt)
         (str ''const int LCD_D6 = 3;'')
   \<and> js_includes (buildArduinoCode_hd44780 rs Parallel dt)
         (str ''const int LCD_D7 = 2;'')
   \<and> js_includes (buildArduinoCode_hd44780 rs Parallel dt)
         (str ''hd44780_pinIO lcd(LCD_RS, LCD_EN, LCD_D4, LCD_D5, LCD_D6, LCD_D7);'')
   \<and> \<not> js_includes (buildArduinoCode_hd44780 rs Parallel dt)
         (str ''hd44780_I2Cexp'')
   \<and> js_includes (buildArduinoCode_hd44780 rs I2c dt)
         (str ''hd44780_I2Cexp lcd;'')
   \<and> \<not> js_includes (buildArduinoCode_hd44780 rs I2c dt)
         (str ''const int'')
   \<and> \<not> js_includes (buildArduinoCode_hd44780 rs I2c dt)
         (str ''LCD_'')
   \<and> \<not> js_includes (buildArduinoCode_hd44780 rs I2c dt)
         (str ''hd44780_pinIO'')
   \<and> js_includes (buildArduinoCode_LiquidCrystal rs Parallel dt)
         (str ''LiquidCrystal lcd(12, 11, 5, 4, 3, 2);'')
   \<and> js_includes (buildArduinoCode_LiquidCrystal rs Parallel dt)
         (str ''lcd.begin(16, 2);'')
   \<and> \<not> js_includes (buildArduinoCode_LiquidCrystal rs Parallel dt)
         (str ''lcd.begin();'')
   \<and> \<not> js_includes (buildArduinoCode_LiquidCrystal rs Parallel dt)
         (str ''LiquidCrystal_I2C'')
   \<and> js_includes (buildArduinoCode_LiquidCrystal rs I2c dt)
         (str ''LiquidCrystal_I2C lcd(0x3F, 16, 2);'')
   \<and> js_includes (buildArduinoCode_LiquidCrystal rs I2c dt)
         (str ''lcd.begin();'')
   \<and> \<not> js_includes (buildArduinoCode_LiquidCrystal rs I2c dt)
         (str ''lcd(12, 11, 5, 4, 3, 2)'')
   \<and> \<not> js_includes (buildArduinoCode_LiquidCrystal rs I2c dt)
         (str ''lcd.begin(16, 2);'')"
  using Parallel_hd44780_text [OF assms, of dt] I2c_hd44780_text [OF assms, of dt]
    Parallel_LiquidCrystal_text [OF assms, of dt] I2c_LiquidCrystal_text [OF assms, of dt]
  by (intro conjI)

theorem firmware_template_shape_witness:
  "valid_rows [31, 17, 17, 31, 1, 1, 31, 0]
   \<and> js_includes (buildArduinoCode_hd44780 [31, 17, 17, 31, 1, 1, 31, 0] Parallel Hex)
         (str ''const int LCD_RS = 12;'')
   \<and> js_includes (buildArduinoCode_hd44780 [31, 17, 17, 31, 1, 1, 31, 0] Parallel Hex)
         (str ''const int LCD_EN = 11;'')
   \<and> js_includes (buildArduinoCode_hd44780 [31, 17, 17, 31, 1, 1, 31, 0] Parallel Hex)
         (str ''const int LCD_D4 = 5;'')
   \<and> js_includes (buildArduinoCode_hd44780 [31, 17, 17, 31, 1, 1, 31, 0] Parallel Hex)
         (str ''const int LCD_D5 = 4;'')
   \<and> js_includes (buildArduinoCode_hd44780 [31, 17, 17, 31, 1, 1, 31, 0] Parallel Hex)
         (str ''const int LCD_D6 = 3;'')
   \<and> js_includes (buildArduinoCode_hd44780 [31, 17, 17, 31, 1, 1, 31, 0] Parallel Hex)
         (str ''const int LCD_D7 = 2;'')
   \<and> js_includes (buildArduinoCode_hd44780 [31, 17, 17, 31, 1, 1, 31, 0] Parallel Hex)
         (str ''hd44780_pinIO lcd(LCD_RS, LCD_EN, LCD_D4, LCD_D5, LCD_D6, LCD_D7);'')
   \<and> \<not> js_includes (buildArduinoCode_hd44780 [31, 17, 17, 31, 1, 1, 31, 0] Parallel Hex)
         (str ''hd44780_I2Cexp'')
   \<and> js_includes (buildArduinoCode_hd44780 [31, 17, 17, 31, 1, 1, 31, 0] I2c Hex)
         (str ''hd44780_I2Cexp lcd;'')
   \<and> \<not> js_includes (buildArduinoCode_hd44780 [31, 17, 17, 31, 1, 1, 31, 0] I2c Hex)
         (str ''const int'')
   \<and> \<not> js_includes (buildArduinoCode_hd44780 [31, 17, 17, 31, 1, 1, 31, 0] I2c Hex)
         (str ''LCD_'')
   \<and> \<not> js_includes (buildArduinoCode_hd44780 [31, 17, 17, 31, 1, 1, 31, 0] I2c Hex)
         (str ''hd44780_pinIO'')
   \<and> js_includes (buildArduinoCode_LiquidCrystal [31, 17, 17, 31, 1, 1, 31, 0] Parallel Hex)
         (str ''LiquidCrystal lcd(12, 11, 5, 4, 3, 2);'')
   \<and> js_includes (buildArduinoCode_LiquidCrystal [31, 17, 17, 31, 1, 1, 31, 0] Parallel Hex)
         (str ''lcd.begin(16, 2);'')
   \<and> \<not> js_includes (buildArduinoCode_LiquidCrystal [31, 17, 17, 31, 1, 1, 31, 0] Parallel Hex)
         (str ''lcd.begin();'')
   \<and> \<not> js_includes (buildArduinoCode_LiquidCrystal [31, 17, 17, 31, 1, 1, 31, 0] Parallel Hex)
         (str ''LiquidCrystal_I2C'')
   \<and> js_includes (buildArduinoCode_LiquidCrystal [31, 17, 17, 31, 1, 1, 31, 0] I2c Hex)
         (str ''LiquidCrystal_I2C lcd(0x3F, 16, 2);'')
   \<and> js_includes (buildArduinoCode_LiquidCrystal [31, 17, 17, 31, 1, 1, 31, 0] I2c Hex)
         (str ''lcd.begin();'')
   \<and> \<not> js_includes (buildArduinoCode_LiquidCrystal [31, 17, 17, 31, 1, 1, 31, 0] I2c Hex)
         (str ''lcd(12, 11, 5, 4, 3, 2)'')
   \<and> \<not> js_includes (buildArduinoCode_LiquidCrystal [31, 17, 17, 31, 1, 1, 31, 0] I2c Hex)
         (str ''lcd.begin(16, 2);'')"
proof -
  have r: "valid_rows [31, 17, 17, 31, 1, 1, 31, 0]"
    by (simp add: valid_rows_def ROWS_def)
  from r firmware_template_shape [OF r, of Hex] show ?thesis
    by (rule conjI)
qed

end
